theory Spec2Isabelle
  imports Main "HOL-Library.Word"
begin

unbundle bit_operations_syntax

section \<open>Client-side capability management of the Ceph filesystem (fs/ceph/caps.c)\<close>

text \<open>
  A shallow embedding of the capability code of \<^verbatim>\<open>fs/ceph/caps.c\<close>.  Locks, debug
  output, metrics and wake-ups of wait queues have no effect on the data the
  properties below speak about and are left out; every \<^verbatim>\<open>BUG_ON\<close> and every
  dereference of a pointer that may be \<^verbatim>\<open>NULL\<close> is a branch that returns a
  \<open>fault\<close>.
\<close>

subsection \<open>Faults\<close>

datatype fault =
    BUG_CONSERVATION      \<comment> \<open>\<^verbatim>\<open>BUG_ON(caps_total_count != use + reserve + avail)\<close>\<close>
  | BUG_RESERVE_UNDERFLOW \<comment> \<open>\<^verbatim>\<open>BUG_ON(mdsc->caps_reserve_count < nr_caps)\<close>\<close>
  | BUG_RESERVE_SHORT     \<comment> \<open>\<^verbatim>\<open>BUG_ON(have + alloc != need)\<close>\<close>
  | BUG_CTX_EMPTY         \<comment> \<open>\<^verbatim>\<open>BUG_ON(!ctx->count)\<close>\<close>
  | BUG_CTX_OVER          \<comment> \<open>\<^verbatim>\<open>BUG_ON(ctx->count > mdsc->caps_reserve_count)\<close>\<close>
  | BUG_LIST_EMPTY        \<comment> \<open>\<^verbatim>\<open>BUG_ON(list_empty(&mdsc->caps_list))\<close>, or an entry taken from an empty list\<close>
  | BUG_ISSUED            \<comment> \<open>\<^verbatim>\<open>BUG_ON(cap->issued & ~cap->implemented)\<close>\<close>
  | BUG_OTHER             \<comment> \<open>any other \<^verbatim>\<open>BUG_ON\<close> of the file\<close>
  | NULL_DEREF            \<comment> \<open>a \<^verbatim>\<open>NULL\<close> pointer is dereferenced\<close>

subsection \<open>The cap allocator and its reservation pool\<close>

text \<open>
  The counters of \<^verbatim>\<open>struct ceph_mds_client\<close> the allocator works on.  They are C
  \<^verbatim>\<open>int\<close>s: 32-bit words whose arithmetic wraps (the kernel is built with
  \<^verbatim>\<open>-fno-strict-overflow\<close>) and whose comparisons read them as signed numbers
  (\<open>sint\<close>).
  \<open>caps_list\<close> is the number of preallocated objects linked on
  \<^verbatim>\<open>mdsc->caps_list\<close> (the objects themselves carry no data while they are free).
\<close>

record caps_pool =
  caps_total_count :: "32 word"
  caps_use_count :: "32 word"
  caps_reserve_count :: "32 word"
  caps_avail_count :: "32 word"
  caps_min_count :: "32 word"
  caps_use_max :: "32 word"
  caps_list :: nat

text \<open>\<^verbatim>\<open>struct ceph_cap_reservation\<close>.\<close>

record ceph_cap_reservation =
  ctx_count :: "32 word"
  ctx_used :: "32 word"

text \<open>The equation every \<^verbatim>\<open>BUG_ON\<close> of the allocator asserts.\<close>

definition pool_conserved :: "'a caps_pool_scheme \<Rightarrow> bool" where
  "pool_conserved m \<longleftrightarrow>
     caps_total_count m = caps_use_count m + caps_reserve_count m + caps_avail_count m"

text \<open>\<^verbatim>\<open>ceph_caps_finalize\<close>: the pool after every free object is released.\<close>

definition ceph_caps_finalize :: "'a caps_pool_scheme \<Rightarrow> 'a caps_pool_scheme" where
  "ceph_caps_finalize m =
     m\<lparr>caps_list := 0, caps_total_count := 0, caps_avail_count := 0,
       caps_use_count := 0, caps_reserve_count := 0, caps_min_count := 0\<rparr>"

text \<open>
  \<^verbatim>\<open>list_first_entry\<close> and \<^verbatim>\<open>list_del\<close>, \<open>n\<close> times: the free list loses \<open>n\<close>
  objects; taking an entry from an empty list is a fault.
\<close>

definition caps_list_take :: "nat \<Rightarrow> 'a caps_pool_scheme \<Rightarrow> fault + 'a caps_pool_scheme" where
  "caps_list_take n m =
     (if n \<le> caps_list m then Inr (m\<lparr>caps_list := caps_list m - n\<rparr>)
      else Inl BUG_LIST_EMPTY)"

text \<open>\<^verbatim>\<open>__ceph_unreserve_caps\<close>.\<close>

definition unreserve_caps_locked ::
  "'a caps_pool_scheme \<Rightarrow> 32 word \<Rightarrow> fault + 'a caps_pool_scheme" where
  "unreserve_caps_locked m nr_caps =
     (if nr_caps \<noteq> 0 then
        if sint (caps_reserve_count m) < sint nr_caps then Inl BUG_RESERVE_UNDERFLOW
        else
          let m1 = m\<lparr>caps_reserve_count := caps_reserve_count m - nr_caps\<rparr>;
              r = (if sint (caps_avail_count m1)
                        \<ge> sint (caps_reserve_count m1 + caps_min_count m1)
                   then caps_list_take (nat (sint nr_caps))
                          (m1\<lparr>caps_total_count := caps_total_count m1 - nr_caps\<rparr>)
                   else Inr (m1\<lparr>caps_avail_count := caps_avail_count m1 + nr_caps\<rparr>))
          in (case r of
                Inl e \<Rightarrow> Inl e
              | Inr m2 \<Rightarrow> if pool_conserved m2 then Inr m2 else Inl BUG_CONSERVATION)
      else Inr m)"

text \<open>\<^verbatim>\<open>ceph_put_cap\<close>: a cap in use is returned to the pool.\<close>

definition ceph_put_cap :: "'a caps_pool_scheme \<Rightarrow> fault + 'a caps_pool_scheme" where
  "ceph_put_cap m =
     (let m1 = m\<lparr>caps_use_count := caps_use_count m - 1\<rparr>;
          m2 = (if sint (caps_avail_count m1)
                     \<ge> sint (caps_reserve_count m1 + caps_min_count m1)
                then m1\<lparr>caps_total_count := caps_total_count m1 - 1\<rparr>
                else m1\<lparr>caps_avail_count := caps_avail_count m1 + 1,
                        caps_list := caps_list m1 + 1\<rparr>)
      in if pool_conserved m2 then Inr m2 else Inl BUG_CONSERVATION)"

text \<open>
  \<^verbatim>\<open>ceph_trim_caps\<close> is not part of this file.  What it does to the pool is to
  release caps of live sessions through \<^verbatim>\<open>ceph_put_cap\<close>; the number of caps it
  manages to release is a parameter of the model.
\<close>

fun put_caps :: "nat \<Rightarrow> 'a caps_pool_scheme \<Rightarrow> fault + 'a caps_pool_scheme" where
  "put_caps 0 m = Inr m"
| "put_caps (Suc n) m =
     (case ceph_put_cap m of Inl e \<Rightarrow> Inl e | Inr m' \<Rightarrow> put_caps n m')"

text \<open>
  The allocation loop of \<^verbatim>\<open>ceph_reserve_caps\<close>,
  \<^verbatim>\<open>for (i = have; i < need; )\<close>.  \<open>kmem\<close> lists the outcomes of the successive
  calls of \<^verbatim>\<open>kmem_cache_alloc\<close> (\<open>True\<close>: an object was returned); once the list is
  used up every further call fails.  \<open>trim\<close> is the number of caps the trimming of
  the sessions releases.  \<open>newcaps\<close> is the number of objects on the local list
  \<^verbatim>\<open>newcaps\<close>.  The loop returns the pool, \<open>have\<close>, \<open>alloc\<close>, the local list and
  whether it ended with \<^verbatim>\<open>-ENOMEM\<close>.
\<close>

function reserve_loop ::
  "bool list \<Rightarrow> nat \<Rightarrow> 32 word \<Rightarrow> 32 word \<Rightarrow> 32 word \<Rightarrow> 32 word \<Rightarrow> nat \<Rightarrow> bool
     \<Rightarrow> 'a caps_pool_scheme
     \<Rightarrow> fault + ('a caps_pool_scheme \<times> 32 word \<times> 32 word \<times> nat \<times> bool)" where
  "reserve_loop kmem trim need i have alloc newcaps trimmed m =
     (if sint i < sint need then
        (if kmem \<noteq> [] \<and> hd kmem then
           reserve_loop (tl kmem) trim need (i + 1) have (alloc + 1) (newcaps + 1) trimmed m
         else if \<not> trimmed then
           (case put_caps trim m of
              Inl e \<Rightarrow> Inl e
            | Inr m1 \<Rightarrow>
                if caps_avail_count m1 \<noteq> 0 then
                  (let more_have = (if sint (caps_avail_count m1) \<ge> sint (need - i)
                                    then need - i else caps_avail_count m1)
                   in reserve_loop (tl kmem) trim need (i + more_have) (have + more_have) alloc
                        newcaps True
                        (m1\<lparr>caps_avail_count := caps_avail_count m1 - more_have,
                            caps_reserve_count := caps_reserve_count m1 + more_have\<rparr>))
                else reserve_loop (tl kmem) trim need i have alloc newcaps True m1)
         else Inr (m, have, alloc, newcaps, True))
      else Inr (m, have, alloc, newcaps, False))"
  by pat_completeness auto
termination
proof (relation "measures
    [\<lambda>(kmem, trim, need, i, have, alloc, newcaps, trimmed, m). if trimmed then 0 else 1,
     \<lambda>(kmem, trim, need, i, have, alloc, newcaps, trimmed, m). nat (sint need - sint i)]",
    goal_cases)
  case 1
  show ?case by simp
next
  case (2 kmem trim need i hv alloc newcaps trimmed m)
  have "sint need \<le> 2147483647"
    using sint_lt [of need] by simp
  with 2(1) have "sint i + 1 < 2147483648" "- 2147483648 \<le> sint i + 1"
    using sint_ge [of i] by simp_all
  then have "sint (i + 1) = sint i + 1"
    by (simp add: sint_word_ariths signed_take_bit_int_eq_self)
  with 2(1) show ?case by simp
next
  case 3
  then show ?case by simp
next
  case 4
  then show ?case by simp
qed

declare reserve_loop.simps [simp del]

text \<open>
  \<^verbatim>\<open>ceph_reserve_caps\<close>.  The result is the pool, the reservation and the error
  code (\<open>0\<close> or \<^verbatim>\<open>-ENOMEM\<close>, here \<open>- 12\<close>).
\<close>

definition ENOMEM :: int where "ENOMEM = 12"

definition ceph_reserve_caps ::
  "bool list \<Rightarrow> nat \<Rightarrow> 'a caps_pool_scheme \<Rightarrow> ceph_cap_reservation \<Rightarrow> 32 word
     \<Rightarrow> fault + ('a caps_pool_scheme \<times> ceph_cap_reservation \<times> int)" where
  "ceph_reserve_caps kmem trim m ctx need =
     (let have = (if sint (caps_avail_count m) \<ge> sint need then need else caps_avail_count m);
          m1 = m\<lparr>caps_avail_count := caps_avail_count m - have,
                 caps_reserve_count := caps_reserve_count m + have\<rparr>
      in if \<not> pool_conserved m1 then Inl BUG_CONSERVATION
         else
           (case reserve_loop kmem trim need have have 0 0 False m1 of
              Inl e \<Rightarrow> Inl e
            | Inr (m2, have', alloc, newcaps, enomem) \<Rightarrow>
                if \<not> enomem \<and> have' + alloc \<noteq> need then Inl BUG_RESERVE_SHORT
                else
                  let ctx' = (if enomem then ctx else ctx\<lparr>ctx_count := need, ctx_used := 0\<rparr>);
                      m3 = m2\<lparr>caps_total_count := caps_total_count m2 + alloc,
                              caps_reserve_count := caps_reserve_count m2 + alloc,
                              caps_list := caps_list m2 + newcaps\<rparr>
                  in if \<not> pool_conserved m3 then Inl BUG_CONSERVATION
                     else if enomem then
                       (case unreserve_caps_locked m3 (have' + alloc) of
                          Inl e \<Rightarrow> Inl e
                        | Inr m4 \<Rightarrow> Inr (m4, ctx', - ENOMEM))
                     else Inr (m3, ctx', 0)))"

text \<open>
  \<^verbatim>\<open>ceph_unreserve_caps\<close>.  The call of \<^verbatim>\<open>ceph_reclaim_caps_nr\<close> that may follow
  only schedules work and is left out.
\<close>

definition ceph_unreserve_caps ::
  "'a caps_pool_scheme \<Rightarrow> ceph_cap_reservation \<Rightarrow> fault + ('a caps_pool_scheme \<times> ceph_cap_reservation)" where
  "ceph_unreserve_caps m ctx =
     (if ctx_count ctx = 0 then Inr (m, ctx)
      else
        (case unreserve_caps_locked m (ctx_count ctx) of
           Inl e \<Rightarrow> Inl e
         | Inr m' \<Rightarrow> Inr (m', ctx\<lparr>ctx_count := 0\<rparr>)))"

text \<open>
  \<^verbatim>\<open>ceph_get_cap\<close>.  \<open>ctx = None\<close> is the call with a \<^verbatim>\<open>NULL\<close> reservation;
  \<open>alloc_ok\<close> is the outcome of its \<^verbatim>\<open>kmem_cache_alloc\<close>.  The last component of
  the result tells whether a cap object was returned (\<open>False\<close>: \<^verbatim>\<open>NULL\<close>).
\<close>

definition ceph_get_cap ::
  "bool \<Rightarrow> 'a caps_pool_scheme \<Rightarrow> ceph_cap_reservation option
     \<Rightarrow> fault + ('a caps_pool_scheme \<times> ceph_cap_reservation option \<times> bool)" where
  "ceph_get_cap alloc_ok m ctx =
     (case ctx of
        None \<Rightarrow>
          if alloc_ok then
            Inr (m\<lparr>caps_use_count := caps_use_count m + 1,
                    caps_total_count := caps_total_count m + 1\<rparr>, None, True)
          else if caps_avail_count m \<noteq> 0 then
            (if caps_list m = 0 then Inl BUG_LIST_EMPTY
             else
               let m1 = m\<lparr>caps_avail_count := caps_avail_count m - 1,
                          caps_use_count := caps_use_count m + 1,
                          caps_list := caps_list m - 1\<rparr>
               in if pool_conserved m1 then Inr (m1, None, True) else Inl BUG_CONSERVATION)
          else Inr (m, None, False)
      | Some c \<Rightarrow>
          if ctx_count c = 0 then Inl BUG_CTX_EMPTY
          else if sint (ctx_count c) > sint (caps_reserve_count m) then Inl BUG_CTX_OVER
          else if caps_list m = 0 then Inl BUG_LIST_EMPTY
          else
            let c1 = c\<lparr>ctx_count := ctx_count c - 1, ctx_used := ctx_used c + 1\<rparr>;
                m1 = m\<lparr>caps_reserve_count := caps_reserve_count m - 1,
                       caps_use_count := caps_use_count m + 1,
                       caps_list := caps_list m - 1\<rparr>
            in if pool_conserved m1 then Inr (m1, Some c1, True) else Inl BUG_CONSERVATION)"

text \<open>The operations of the allocator, as one step function on the pool.\<close>

datatype pool_op =
    Reserve "bool list" nat ceph_cap_reservation "32 word"
  | Unreserve ceph_cap_reservation
  | Get bool "ceph_cap_reservation option"
  | Put

fun pool_step :: "pool_op \<Rightarrow> 'a caps_pool_scheme \<Rightarrow> fault + 'a caps_pool_scheme" where
  "pool_step (Reserve kmem trim ctx need) m = map_sum id fst (ceph_reserve_caps kmem trim m ctx need)"
| "pool_step (Unreserve ctx) m = map_sum id fst (ceph_unreserve_caps m ctx)"
| "pool_step (Get alloc_ok ctx) m = map_sum id fst (ceph_get_cap alloc_ok m ctx)"
| "pool_step Put m = ceph_put_cap m"

fun pool_run :: "pool_op list \<Rightarrow> 'a caps_pool_scheme \<Rightarrow> fault + 'a caps_pool_scheme" where
  "pool_run [] m = Inr m"
| "pool_run (op # ops) m =
     (case pool_step op m of Inl e \<Rightarrow> Inl e | Inr m' \<Rightarrow> pool_run ops m')"

subsection \<open>Capabilities, sessions, flushes and inodes\<close>

text \<open>
  The header \<^verbatim>\<open>include/linux/ceph/ceph_fs.h\<close> is not among the sources.  The
  capability bits have the values it gives them: generic bits shifted by the
  per-lock shifts that \<^verbatim>\<open>ceph_cap_string\<close> decodes.  Bit sets are the 32-bit
  \<^verbatim>\<open>int\<close>s and \<^verbatim>\<open>unsigned\<close>s of the code.
\<close>

definition CEPH_CAP_PIN :: "32 word" where "CEPH_CAP_PIN = 1"
definition CEPH_CAP_AUTH_EXCL :: "32 word" where "CEPH_CAP_AUTH_EXCL = 0x8"
definition CEPH_CAP_LINK_EXCL :: "32 word" where "CEPH_CAP_LINK_EXCL = 0x20"
definition CEPH_CAP_XATTR_EXCL :: "32 word" where "CEPH_CAP_XATTR_EXCL = 0x80"
definition CEPH_CAP_FILE_SHARED :: "32 word" where "CEPH_CAP_FILE_SHARED = 0x100"
definition CEPH_CAP_FILE_EXCL :: "32 word" where "CEPH_CAP_FILE_EXCL = 0x200"
definition CEPH_CAP_FILE_CACHE :: "32 word" where "CEPH_CAP_FILE_CACHE = 0x400"
definition CEPH_CAP_FILE_RD :: "32 word" where "CEPH_CAP_FILE_RD = 0x800"
definition CEPH_CAP_FILE_WR :: "32 word" where "CEPH_CAP_FILE_WR = 0x1000"
definition CEPH_CAP_FILE_BUFFER :: "32 word" where "CEPH_CAP_FILE_BUFFER = 0x2000"
definition CEPH_CAP_FILE_WREXTEND :: "32 word" where "CEPH_CAP_FILE_WREXTEND = 0x4000"
definition CEPH_CAP_FILE_LAZYIO :: "32 word" where "CEPH_CAP_FILE_LAZYIO = 0x8000"

definition CEPH_CAP_ANY_FILE_WR :: "32 word" where
  "CEPH_CAP_ANY_FILE_WR = CEPH_CAP_FILE_WR OR CEPH_CAP_FILE_BUFFER OR CEPH_CAP_FILE_EXCL"

definition CEPH_CAP_ANY_DIR_OPS :: "32 word" where
  "CEPH_CAP_ANY_DIR_OPS = CEPH_CAP_FILE_CACHE OR CEPH_CAP_FILE_RD
     OR CEPH_CAP_FILE_WR OR CEPH_CAP_FILE_WREXTEND"


text \<open>
  \<^verbatim>\<open>struct ceph_cap\<close>.  A cap belongs to the session of its MDS
  (\<^verbatim>\<open>cap->session->s_mds == cap->mds\<close>), so the session pointer is the MDS number.
\<close>

record ceph_cap =
  mds :: int
  cap_id :: "64 word"
  issued :: "32 word"
  implemented :: "32 word"
  mds_wanted :: "32 word"
  seq :: "32 word"
  issue_seq :: "32 word"
  mseq :: "32 word"
  cap_gen :: "32 word"

text \<open>
  \<^verbatim>\<open>struct ceph_cap_flush\<close>.  The objects live in a memory indexed by address,
  because one object is linked on two lists (\<^verbatim>\<open>i_list\<close>, \<^verbatim>\<open>g_list\<close>) and its
  \<^verbatim>\<open>wake\<close> flag is written through either.
\<close>

record ceph_cap_flush =
  tid :: "64 word"
  caps :: "32 word"
  is_capsnap :: bool
  wake :: bool

text \<open>A queued cap release (\<^verbatim>\<open>__ceph_queue_cap_release\<close> links the cap object itself).\<close>

record cap_release =
  rel_ino :: "64 word"
  rel_cap_id :: "64 word"
  rel_mseq :: "32 word"
  rel_seq :: "32 word"
  rel_issue_seq :: "32 word"

text \<open>
  \<^verbatim>\<open>struct ceph_mds_session\<close>.  \<open>s_cap_iterator\<close> names the cap a running
  \<^verbatim>\<open>ceph_iterate_session_caps\<close> holds by the inode number of the cap (a session has
  at most one cap on an inode).
\<close>

record ceph_mds_session =
  s_cap_gen :: "32 word"
  s_cap_ttl :: "64 word"
  s_readonly :: bool
  s_nr_caps :: "32 word"
  s_cap_reconnect :: bool
  s_cap_iterator :: "64 word option"
  s_cap_releases :: "cap_release list"
  s_num_cap_releases :: "32 word"

text \<open>
  \<^verbatim>\<open>struct ceph_mds_client\<close>: the pool counters, the flush counter and list, the
  sessions by MDS number, and the memory of the flush objects.
\<close>

record ceph_mds_client = caps_pool +
  last_cap_flush_tid :: "64 word"
  cap_flush_list :: "nat list"
  num_cap_flushing :: "32 word"
  cf_mem :: "nat \<Rightarrow> ceph_cap_flush"
  sessions :: "int \<Rightarrow> ceph_mds_session"

text \<open>\<^verbatim>\<open>struct ceph_cap_snap\<close>: what the code of this file reads of it.  \<open>cs_cap_flush\<close>
  is the address of the flush object \<^verbatim>\<open>capsnap->cap_flush\<close> embedded in it.\<close>

record ceph_cap_snap =
  cs_follows :: "64 word"
  cs_writing :: "32 word"
  cs_dirty_pages :: "32 word"
  cs_need_flush :: bool
  cs_cap_flush :: nat

text \<open>
  \<^verbatim>\<open>struct ceph_inode_info\<close>.  \<open>i_caps\<close> is the red-black tree in its order
  (increasing \<^verbatim>\<open>mds\<close>); \<open>i_auth_cap\<close> names the auth cap by its MDS.
  \<open>i_dirty_item\<close> and \<open>i_flushing_item\<close> tell on which session's
  \<^verbatim>\<open>s_cap_dirty\<close> and \<^verbatim>\<open>s_cap_flushing\<close> list the inode is linked (\<open>None\<close>:
  \<^verbatim>\<open>list_empty\<close>).  \<open>i_count\<close> is the reference count of the VFS inode,
  \<open>i_is_reg\<close> is \<^verbatim>\<open>S_ISREG(inode->i_mode)\<close>, \<open>i_nrpages\<close> is
  \<^verbatim>\<open>inode->i_data.nrpages\<close>, and \<open>i_shutdown\<close> is what \<^verbatim>\<open>ceph_inode_is_shutdown\<close>
  (of \<^verbatim>\<open>super.h\<close>, not among the sources) returns for the inode.
\<close>

record ceph_inode_info =
  i_ino :: "64 word"
  i_caps :: "ceph_cap list"
  i_auth_cap :: "int option"
  i_snap_caps :: "32 word"
  i_dirty_caps :: "32 word"
  i_flushing_caps :: "32 word"
  i_cap_flush_list :: "nat list"
  i_prealloc_cap_flush :: "nat option"
  i_dirty_item :: "int option"
  i_flushing_item :: "int option"
  i_count :: "32 word"
  i_head_snapc :: bool
  i_cap_snaps :: "ceph_cap_snap list"
  i_pin_ref :: "32 word"
  i_rd_ref :: "32 word"
  i_rdcache_ref :: "32 word"
  i_wr_ref :: "32 word"
  i_wb_ref :: "32 word"
  i_fx_ref :: "32 word"
  i_wrbuffer_ref :: "32 word"
  i_wrbuffer_ref_head :: "32 word"
  i_max_size :: "64 word"
  i_wanted_max_size :: "64 word"
  i_requested_max_size :: "64 word"
  i_truncate_pending :: "32 word"
  i_ceph_flags :: "32 word"
  i_rdcache_gen :: "32 word"
  i_rdcache_revoking :: "32 word"
  i_is_reg :: bool
  i_nrpages :: nat
  i_shutdown :: bool
  i_last_rd :: "64 word"
  i_last_wr :: "64 word"

subsection \<open>The capability set of an inode\<close>

text \<open>Flags and operations of the cap messages (\<^verbatim>\<open>ceph_fs.h\<close>), and flags of the inode
  (\<^verbatim>\<open>super.h\<close>).\<close>

definition CEPH_CAP_FLAG_AUTH :: "32 word" where "CEPH_CAP_FLAG_AUTH = 1"
definition CEPH_CAP_FLAG_RELEASE :: "32 word" where "CEPH_CAP_FLAG_RELEASE = 2"

definition CEPH_CAP_OP_GRANT :: "32 word" where "CEPH_CAP_OP_GRANT = 0"
definition CEPH_CAP_OP_REVOKE :: "32 word" where "CEPH_CAP_OP_REVOKE = 1"
definition CEPH_CAP_OP_TRUNC :: "32 word" where "CEPH_CAP_OP_TRUNC = 2"
definition CEPH_CAP_OP_IMPORT :: "32 word" where "CEPH_CAP_OP_IMPORT = 4"

definition CEPH_CAP_AUTH_SHARED :: "32 word" where "CEPH_CAP_AUTH_SHARED = 0x4"
definition CEPH_CAP_LINK_SHARED :: "32 word" where "CEPH_CAP_LINK_SHARED = 0x10"
definition CEPH_CAP_XATTR_SHARED :: "32 word" where "CEPH_CAP_XATTR_SHARED = 0x40"

definition CEPH_I_FLUSH :: "32 word" where "CEPH_I_FLUSH = 0x4"
definition CEPH_I_ERROR_FILELOCK :: "32 word" where "CEPH_I_ERROR_FILELOCK = 0x400"

text \<open>
  \<^verbatim>\<open>ceph_seq_cmp\<close> of \<^verbatim>\<open>ceph_fs.h\<close>: \<^verbatim>\<open>(__s32)a - (__s32)b\<close>, the difference of two
  sequence numbers read as a signed 32-bit number.
\<close>

definition ceph_seq_cmp :: "32 word \<Rightarrow> 32 word \<Rightarrow> int" where
  "ceph_seq_cmp a b = sint (a - b)"

text \<open>\<^verbatim>\<open>time_after_eq\<close> of \<^verbatim>\<open>linux/jiffies.h\<close>: \<^verbatim>\<open>(long)(a - b) >= 0\<close>.\<close>

definition time_after_eq :: "64 word \<Rightarrow> 64 word \<Rightarrow> bool" where
  "time_after_eq a b \<longleftrightarrow> 0 \<le> sint (a - b)"

text \<open>\<^verbatim>\<open>__get_cap_for_mds\<close>: the search in the tree of the inode.\<close>

definition get_cap_for_mds :: "ceph_inode_info \<Rightarrow> int \<Rightarrow> ceph_cap option" where
  "get_cap_for_mds ci m = find (\<lambda>c. mds c = m) (i_caps ci)"

text \<open>The cap \<^verbatim>\<open>ci->i_auth_cap\<close> points to.\<close>

definition auth_cap :: "ceph_inode_info \<Rightarrow> ceph_cap option" where
  "auth_cap ci = (case i_auth_cap ci of None \<Rightarrow> None | Some m \<Rightarrow> get_cap_for_mds ci m)"

text \<open>\<^verbatim>\<open>__insert_cap_node\<close>: the new cap goes to its place in the order of the tree; a cap of
  the same MDS in the tree is a \<^verbatim>\<open>BUG()\<close>.\<close>

fun insert_cap_node :: "ceph_cap \<Rightarrow> ceph_cap list \<Rightarrow> fault + ceph_cap list" where
  "insert_cap_node new [] = Inr [new]"
| "insert_cap_node new (c # cs) =
     (if mds new < mds c then Inr (new # c # cs)
      else if mds new > mds c then
        (case insert_cap_node new cs of Inl e \<Rightarrow> Inl e | Inr cs' \<Rightarrow> Inr (c # cs'))
      else Inl BUG_OTHER)"

text \<open>A write to the fields of the cap object of MDS \<open>mds c\<close>, which the tree links.\<close>

definition store_cap :: "ceph_inode_info \<Rightarrow> ceph_cap \<Rightarrow> ceph_inode_info" where
  "store_cap ci c = ci\<lparr>i_caps := map (\<lambda>x. if mds x = mds c then c else x) (i_caps ci)\<rparr>"

text \<open>\<^verbatim>\<open>change_auth_cap_ses\<close>: an inode on a dirty or flushing list moves to the list of
  the new session.\<close>

definition change_auth_cap_ses :: "ceph_inode_info \<Rightarrow> int \<Rightarrow> ceph_inode_info" where
  "change_auth_cap_ses ci session =
     ci\<lparr>i_dirty_item := (if i_dirty_item ci \<noteq> None then Some session else None),
        i_flushing_item := (if i_flushing_item ci \<noteq> None then Some session else None)\<rparr>"

text \<open>\<^verbatim>\<open>__cap_is_valid\<close>, at the time \<open>jiffies\<close>.\<close>

definition cap_is_valid :: "ceph_mds_client \<Rightarrow> 64 word \<Rightarrow> ceph_cap \<Rightarrow> bool" where
  "cap_is_valid mdsc jiffies cap =
     (let gen = s_cap_gen (sessions mdsc (mds cap));
          ttl = s_cap_ttl (sessions mdsc (mds cap))
      in \<not> (cap_gen cap < gen \<or> time_after_eq jiffies ttl))"

text \<open>The loop of \<^verbatim>\<open>__ceph_caps_issued\<close> over the caps of the inode: it collects \<open>have\<close>
  and \<open>implemented\<close>.\<close>

fun caps_issued_loop ::
  "ceph_mds_client \<Rightarrow> 64 word \<Rightarrow> ceph_cap list \<Rightarrow> 32 word \<times> 32 word \<Rightarrow> 32 word \<times> 32 word" where
  "caps_issued_loop mdsc jiffies [] acc = acc"
| "caps_issued_loop mdsc jiffies (cap # cs) (have, impl) =
     (if \<not> cap_is_valid mdsc jiffies cap then caps_issued_loop mdsc jiffies cs (have, impl)
      else caps_issued_loop mdsc jiffies cs (have OR issued cap, impl OR implemented cap))"

text \<open>\<^verbatim>\<open>__ceph_caps_issued\<close>: the bits issued to the client, and \<^verbatim>\<open>*implemented\<close>.\<close>

definition ceph_caps_issued ::
  "ceph_mds_client \<Rightarrow> 64 word \<Rightarrow> ceph_inode_info \<Rightarrow> 32 word \<times> 32 word" where
  "ceph_caps_issued mdsc jiffies ci =
     (case caps_issued_loop mdsc jiffies (i_caps ci) (i_snap_caps ci, 0) of
        (have, impl) \<Rightarrow>
          (case auth_cap ci of
             Some cap \<Rightarrow> (have AND (NOT (implemented cap) OR issued cap), impl)
           | None \<Rightarrow> (have, impl)))"

text \<open>\<^verbatim>\<open>__ceph_caps_revoking_other\<close>.\<close>

definition ceph_caps_revoking_other :: "ceph_inode_info \<Rightarrow> int \<Rightarrow> 32 word \<Rightarrow> bool" where
  "ceph_caps_revoking_other ci ocap m =
     list_ex (\<lambda>cap. mds cap \<noteq> ocap \<and> implemented cap AND NOT (issued cap) AND m \<noteq> 0) (i_caps ci)"

text \<open>\<^verbatim>\<open>__ceph_caps_used\<close>.\<close>

definition ceph_caps_used :: "ceph_inode_info \<Rightarrow> 32 word" where
  "ceph_caps_used ci =
     (if i_pin_ref ci \<noteq> 0 then CEPH_CAP_PIN else 0)
     OR (if i_rd_ref ci \<noteq> 0 then CEPH_CAP_FILE_RD else 0)
     OR (if i_rdcache_ref ci \<noteq> 0 \<or> (i_is_reg ci \<and> i_nrpages ci \<noteq> 0)
         then CEPH_CAP_FILE_CACHE else 0)
     OR (if i_wr_ref ci \<noteq> 0 then CEPH_CAP_FILE_WR else 0)
     OR (if i_wb_ref ci \<noteq> 0 \<or> i_wrbuffer_ref ci \<noteq> 0 then CEPH_CAP_FILE_BUFFER else 0)
     OR (if i_fx_ref ci \<noteq> 0 then CEPH_CAP_FILE_EXCL else 0)"

text \<open>\<^verbatim>\<open>__ceph_caps_dirty\<close> of \<^verbatim>\<open>super.h\<close>.\<close>

definition ceph_caps_dirty :: "ceph_inode_info \<Rightarrow> 32 word" where
  "ceph_caps_dirty ci = i_dirty_caps ci OR i_flushing_caps ci"

text \<open>
  \<^verbatim>\<open>ceph_add_cap\<close> for the session of MDS \<open>session\<close>.  \<open>new_cap\<close> is the object
  \<^verbatim>\<open>*new_cap\<close> (its fields hold whatever the allocator left); the result carries the
  new \<^verbatim>\<open>*new_cap\<close>.  The snap realm of the inode, \<^verbatim>\<open>__check_cap_issue\<close> (cache
  generations, directory completeness, layout) and the queueing of the delayed
  check do not touch the caps and are left out.
\<close>

definition ceph_add_cap ::
  "ceph_mds_client \<Rightarrow> ceph_inode_info \<Rightarrow> int \<Rightarrow> 64 word \<Rightarrow> 32 word \<Rightarrow> 32 word
     \<Rightarrow> 32 word \<Rightarrow> 32 word \<Rightarrow> 32 word \<Rightarrow> ceph_cap option
     \<Rightarrow> fault + (ceph_mds_client \<times> ceph_inode_info \<times> ceph_cap option)" where
  "ceph_add_cap mdsc ci session capid issued0 wanted seq0 mseq0 flags0 new_cap =
     (let gen = s_cap_gen (sessions mdsc session);
          found =
            (case get_cap_for_mds ci session of
               None \<Rightarrow>
                 (case new_cap of
                    None \<Rightarrow> Inl NULL_DEREF
                  | Some obj \<Rightarrow>
                      let cap = obj\<lparr>issued := 0, implemented := 0, mds := session,
                                    mds_wanted := 0, mseq := 0\<rparr>
                      in (case insert_cap_node cap (i_caps ci) of
                            Inl e \<Rightarrow> Inl e
                          | Inr cs \<Rightarrow>
                              Inr (mdsc\<lparr>sessions := (sessions mdsc)
                                      (session := (sessions mdsc session)
                                         \<lparr>s_nr_caps := s_nr_caps (sessions mdsc session) + 1\<rparr>)\<rparr>,
                                   ci\<lparr>i_caps := cs\<rparr>, cap, None, seq0, mseq0, issued0, flags0)))
             | Some cap0 \<Rightarrow>
                 let cap1 = (if cap_gen cap0 < gen
                             then cap0\<lparr>issued := CEPH_CAP_PIN, implemented := CEPH_CAP_PIN\<rparr>
                             else cap0)
                 in if ceph_seq_cmp seq0 (seq cap1) \<le> 0
                    then Inr (mdsc, store_cap ci cap1, cap1, new_cap, seq cap1, mseq cap1,
                              issued0 OR issued cap1, flags0 OR CEPH_CAP_FLAG_AUTH)
                    else Inr (mdsc, store_cap ci cap1, cap1, new_cap, seq0, mseq0,
                              issued0, flags0))
      in case found of
           Inl e \<Rightarrow> Inl e
         | Inr (mdsc1, ci1, cap, new_cap', sq, msq, iss, flags) \<Rightarrow>
             let take_auth =
                   (flags AND CEPH_CAP_FLAG_AUTH \<noteq> 0 \<and>
                    (case auth_cap ci1 of
                       None \<Rightarrow> True
                     | Some a \<Rightarrow> ceph_seq_cmp (mseq a) msq < 0));
                 ci2 = (if take_auth then
                          (case auth_cap ci1 of
                             None \<Rightarrow> ci1
                           | Some a \<Rightarrow> if mds a \<noteq> mds cap
                                       then change_auth_cap_ses ci1 (mds cap) else ci1)
                            \<lparr>i_auth_cap := Some (mds cap)\<rparr>
                        else ci1);
                 cap2 = (if take_auth then cap\<lparr>mds_wanted := wanted\<rparr> else cap);
                 cap3 = cap2\<lparr>cap_id := capid, issued := iss,
                             implemented := implemented cap2 OR iss,
                             mds_wanted := (if ceph_seq_cmp msq (mseq cap2) > 0 then wanted
                                            else mds_wanted cap2 OR wanted),
                             seq := sq, issue_seq := sq, mseq := msq, cap_gen := gen\<rparr>
             in Inr (mdsc1, store_cap ci2 cap3, new_cap'))"

text \<open>\<^verbatim>\<open>__ceph_queue_cap_release\<close> is not part of this file.  Modelled from the spec: missing is
  the queueing of a release notice for a cap toward its session; the notice is
  appended to the releases of the session and counted.\<close>

definition ceph_queue_cap_release ::
  "ceph_mds_client \<Rightarrow> int \<Rightarrow> cap_release \<Rightarrow> ceph_mds_client" where
  "ceph_queue_cap_release mdsc session rel =
     mdsc\<lparr>sessions := (sessions mdsc)
        (session := (sessions mdsc session)
           \<lparr>s_cap_releases := s_cap_releases (sessions mdsc session) @ [rel],
            s_num_cap_releases := s_num_cap_releases (sessions mdsc session) + 1\<rparr>)\<rparr>"

text \<open>
  \<^verbatim>\<open>ceph_remove_cap\<close> with \<^verbatim>\<open>__ceph_remove_cap\<close>, for the cap of MDS \<open>m\<close> of the inode.
  A cap that is no longer linked to the inode (\<^verbatim>\<open>cap->ci == NULL\<close>) is left alone.
\<close>

definition ceph_remove_cap ::
  "ceph_mds_client \<Rightarrow> ceph_inode_info \<Rightarrow> int \<Rightarrow> bool
     \<Rightarrow> fault + (ceph_mds_client \<times> ceph_inode_info)" where
  "ceph_remove_cap mdsc ci m queue_release =
     (case get_cap_for_mds ci m of
        None \<Rightarrow> Inr (mdsc, ci)
      | Some cap \<Rightarrow>
          let ci1 = ci\<lparr>i_caps := filter (\<lambda>c. mds c \<noteq> m) (i_caps ci),
                      i_auth_cap := (if i_auth_cap ci = Some m then None else i_auth_cap ci)\<rparr>;
              s = sessions mdsc m;
              removed = (s_cap_iterator s \<noteq> Some (i_ino ci));
              mdsc1 = (if removed
                       then mdsc\<lparr>sessions := (sessions mdsc)(m := s\<lparr>s_nr_caps := s_nr_caps s - 1\<rparr>)\<rparr>
                       else mdsc);
              release = (queue_release \<and> (\<not> s_cap_reconnect s \<or> cap_gen cap = s_cap_gen s))
          in if release \<and> removed then
               Inr (ceph_queue_cap_release mdsc1 m
                      \<lparr>rel_ino = i_ino ci, rel_cap_id = cap_id cap, rel_mseq = mseq cap,
                       rel_seq = seq cap, rel_issue_seq = issue_seq cap\<rparr>, ci1)
             else if removed then
               (case ceph_put_cap mdsc1 of Inl e \<Rightarrow> Inl e | Inr mdsc2 \<Rightarrow> Inr (mdsc2, ci1))
             else Inr (mdsc1, ci1))"

text \<open>
  \<^verbatim>\<open>try_nonblocking_invalidate\<close>.  \<open>pages_left\<close> is the number of pages that
  \<^verbatim>\<open>invalidate_mapping_pages\<close> could not drop; the result tells whether the
  invalidation failed.
\<close>

definition try_nonblocking_invalidate ::
  "ceph_inode_info \<Rightarrow> nat \<Rightarrow> ceph_inode_info \<times> bool" where
  "try_nonblocking_invalidate ci pages_left =
     (let ci1 = ci\<lparr>i_nrpages := pages_left\<rparr>
      in if i_nrpages ci1 = 0
         then (ci1\<lparr>i_rdcache_revoking := i_rdcache_gen ci1 - 1\<rparr>, False)
         else (ci1, True))"

text \<open>The header of a cap message, \<^verbatim>\<open>struct ceph_mds_caps\<close>: the fields this file reads.\<close>

record ceph_mds_caps =
  m_op :: "32 word"
  m_ino :: "64 word"
  m_cap_id :: "64 word"
  m_seq :: "32 word"
  m_issue_seq :: "32 word"
  m_migrate_seq :: "32 word"
  m_caps :: "32 word"
  m_wanted :: "32 word"
  m_dirty :: "32 word"
  m_max_size :: "64 word"
  m_snap_follows :: "64 word"

text \<open>
  What \<^verbatim>\<open>handle_cap_grant\<close> has done when it drops \<^verbatim>\<open>i_ceph_lock\<close>: the inode,
  and the calls it still makes.  \<open>gr_kick_flushing\<close> tells whether
  \<^verbatim>\<open>ceph_kick_flushing_inode_caps\<close> is called, \<open>gr_check_caps\<close> is the local
  \<^verbatim>\<open>check_caps\<close> (1: \<^verbatim>\<open>ceph_check_caps\<close> for the auth cap only, 2: for all caps)
  and \<open>gr_flush_force\<close> the flag \<^verbatim>\<open>CHECK_CAPS_FLUSH_FORCE\<close> of that call.  With
  \<open>gr_check_caps = 0\<close> and no kick the function returns without another write to
  the inode or its caps; otherwise the two calls go on to change caps through
  \<^verbatim>\<open>__prep_cap\<close>.
\<close>

record grant_result =
  gr_ci :: ceph_inode_info
  gr_wake :: bool
  gr_check_caps :: nat
  gr_flush_force :: bool
  gr_kick_flushing :: bool
  gr_writeback :: bool
  gr_queue_invalidate :: bool

text \<open>
  \<^verbatim>\<open>handle_cap_grant\<close> is given block by block.  First block: when
  \<^verbatim>\<open>FILE_CACHE\<close> is revoked and nothing is buffered, the pages are invalidated; the
  result tells whether the invalidation has to be queued.  \<open>newcaps\<close> are the caps
  of the message.
\<close>

definition grant_invalidate ::
  "ceph_inode_info \<Rightarrow> ceph_cap \<Rightarrow> 32 word \<Rightarrow> nat \<Rightarrow> ceph_inode_info \<times> bool" where
  "grant_invalidate ci cap newcaps pages_left =
     (if i_is_reg ci
         \<and> (issued cap AND NOT newcaps) AND CEPH_CAP_FILE_CACHE \<noteq> 0
         \<and> newcaps AND CEPH_CAP_FILE_LAZYIO = 0
         \<and> \<not> (i_wrbuffer_ref ci \<noteq> 0 \<or> i_wb_ref ci \<noteq> 0)
      then
        (case try_nonblocking_invalidate ci pages_left of
           (ci1, failed) \<Rightarrow>
             if failed \<and> i_rdcache_revoking ci1 \<noteq> i_rdcache_gen ci1
             then (ci1\<lparr>i_rdcache_revoking := i_rdcache_gen ci1\<rparr>, True)
             else (ci1, False))
      else (ci, False))"

text \<open>
  Second block: a stale cap (\<^verbatim>\<open>was_stale\<close>) falls back to \<^verbatim>\<open>CEPH_CAP_PIN\<close>; a
  message that is not newer than the cap (\<^verbatim>\<open>ceph_seq_cmp(seq, cap->seq) <= 0\<close>)
  keeps the seq of the cap and adds the issued bits of the cap to its own; the cap
  takes the generation \<open>gen\<close> of the session and the seq.  The result is the cap
  and \<^verbatim>\<open>newcaps\<close>.
\<close>

definition grant_stale_seq ::
  "ceph_cap \<Rightarrow> 32 word \<Rightarrow> ceph_mds_caps \<Rightarrow> ceph_cap \<times> 32 word" where
  "grant_stale_seq cap gen grant =
     (let cap1 = (if cap_gen cap < gen
                  then cap\<lparr>issued := CEPH_CAP_PIN, implemented := CEPH_CAP_PIN\<rparr>
                  else cap)
      in if ceph_seq_cmp (m_seq grant) (seq cap1) \<le> 0
         then (cap1\<lparr>cap_gen := gen, seq := seq cap1\<rparr>, m_caps grant OR issued cap1)
         else (cap1\<lparr>cap_gen := gen, seq := m_seq grant\<rparr>, m_caps grant))"

text \<open>Third block: the auth cap with a write cap takes the \<^verbatim>\<open>max_size\<close> of the message;
  the result tells whether it changed.\<close>

definition grant_max_size ::
  "ceph_inode_info \<Rightarrow> bool \<Rightarrow> 32 word \<Rightarrow> 64 word \<Rightarrow> ceph_inode_info \<times> bool" where
  "grant_max_size ci is_auth newcaps max_size =
     (if is_auth \<and> newcaps AND CEPH_CAP_ANY_FILE_WR \<noteq> 0 \<and> max_size \<noteq> i_max_size ci then
        (if max_size \<ge> i_wanted_max_size ci
         then (ci\<lparr>i_max_size := max_size, i_wanted_max_size := 0,
                  i_requested_max_size := 0\<rparr>, True)
         else (ci\<lparr>i_max_size := max_size\<rparr>, True))
      else (ci, False))"

text \<open>Fourth block (\<^verbatim>\<open>revocation, grant, or no-op?\<close>): in a revocation and in a grant
  the cap takes \<^verbatim>\<open>newcaps\<close> as issued and adds them to implemented.\<close>

definition grant_issue :: "ceph_cap \<Rightarrow> 32 word \<Rightarrow> ceph_cap" where
  "grant_issue cap newcaps =
     (if issued cap AND NOT newcaps \<noteq> 0
      then cap\<lparr>issued := newcaps, implemented := implemented cap OR newcaps\<rparr>
      else if issued cap = newcaps then cap
      else cap\<lparr>issued := newcaps, implemented := implemented cap OR newcaps\<rparr>)"

text \<open>
  \<^verbatim>\<open>handle_cap_grant\<close> for the cap of the session of MDS \<open>session\<close>.
  \<open>extra_issued\<close> is \<^verbatim>\<open>extra_info->issued\<close>, \<open>wanted\<close> is what
  \<^verbatim>\<open>__ceph_caps_wanted\<close> returns, \<open>pages_left\<close> is for the invalidation.  The
  updates of the attributes of the inode (mode, owner, link count, xattrs, times,
  layout, size, inline data) do not touch the caps and are left out.  The function
  is followed up to the point where it drops \<^verbatim>\<open>i_ceph_lock\<close>; the result names the
  calls of \<^verbatim>\<open>ceph_kick_flushing_inode_caps\<close> and \<^verbatim>\<open>ceph_check_caps\<close> it makes
  from there on.
\<close>

definition handle_cap_grant ::
  "ceph_mds_client \<Rightarrow> ceph_inode_info \<Rightarrow> int \<Rightarrow> ceph_mds_caps \<Rightarrow> 32 word \<Rightarrow> 32 word
     \<Rightarrow> nat \<Rightarrow> fault + grant_result" where
  "handle_cap_grant mdsc ci session grant extra_issued wanted pages_left =
     (case get_cap_for_mds ci session of
        None \<Rightarrow> Inl NULL_DEREF
      | Some cap0 \<Rightarrow>
          let gen = s_cap_gen (sessions mdsc session);
              was_stale = (cap_gen cap0 < gen);
              max_size = m_max_size grant
          in case grant_invalidate ci cap0 (m_caps grant) pages_left of
               (ci1, queue_invalidate) \<Rightarrow>
          case grant_stale_seq cap0 gen grant of
               (cap2, newcaps) \<Rightarrow>
          let is_auth = (i_auth_cap ci1 = Some session)
          in case grant_max_size ci1 is_auth newcaps max_size of
               (ci2, resize) \<Rightarrow>
          let used = ceph_caps_used ci2;
              check1 = (if (was_stale \<or> m_op grant = CEPH_CAP_OP_IMPORT)
                           \<and> wanted AND NOT (mds_wanted cap2 OR newcaps) \<noteq> 0
                        then 1 else (0::nat));
              revoking = issued cap2 AND NOT newcaps;
              writeback = (revoking \<noteq> 0 \<and> i_is_reg ci2
                           \<and> revoking AND used AND CEPH_CAP_FILE_BUFFER \<noteq> 0);
              revoke_wait = (revoking \<noteq> 0 \<and>
                             (writeback \<or>
                              (queue_invalidate \<and> revoking = CEPH_CAP_FILE_CACHE
                               \<and> newcaps AND CEPH_CAP_FILE_LAZYIO = 0)));
              check2 = (if revoking \<noteq> 0 then
                          (if revoke_wait then check1 else if is_auth then 1 else 2)
                        else if issued cap2 = newcaps then check1
                        else if is_auth \<and> ceph_caps_revoking_other ci2 session newcaps then 2
                        else check1);
              wake2 = (if revoking \<noteq> 0 then resize \<or> NOT (issued cap2) AND newcaps \<noteq> 0
                       else if issued cap2 = newcaps then resize
                       else True);
              cap3 = grant_issue cap2 newcaps
          in if issued cap3 AND NOT (implemented cap3) \<noteq> 0 then Inl BUG_ISSUED
             else
               let revoke = (\<not> revoke_wait \<and> m_op grant = CEPH_CAP_OP_REVOKE);
                   cap4 = (if revoke then cap3\<lparr>mds_wanted := 0\<rparr> else cap3);
                   check3 = (if revoke then (if is_auth then 1 else 2) else check2);
                   import = (m_op grant = CEPH_CAP_OP_IMPORT \<and> is_auth);
                   rerequest = (import \<and>
                                (i_requested_max_size ci2 > max_size
                                 \<or> m_wanted grant AND CEPH_CAP_ANY_FILE_WR = 0));
                   ci3 = (if rerequest then ci2\<lparr>i_requested_max_size := 0\<rparr> else ci2);
                   wake3 = (wake2 \<or> (import \<and> newcaps AND NOT extra_issued \<noteq> 0) \<or> rerequest)
               in Inr \<lparr>gr_ci = store_cap ci3 cap4, gr_wake = wake3, gr_check_caps = check3,
                       gr_flush_force = revoke, gr_kick_flushing = import,
                       gr_writeback = writeback,
                       gr_queue_invalidate = queue_invalidate\<rparr>)"

text \<open>
  \<^verbatim>\<open>__prep_cap\<close>, the step in which the reconciliation (\<^verbatim>\<open>ceph_check_caps\<close>, the
  flushes) changes a cap before it sends a message for it: the cap of MDS \<open>m\<close>
  keeps the bits of \<open>retain\<close>.  The arguments of the message are left out.
\<close>

definition prep_cap ::
  "ceph_inode_info \<Rightarrow> int \<Rightarrow> 32 word \<Rightarrow> 32 word \<Rightarrow> 32 word \<Rightarrow> fault + ceph_inode_info" where
  "prep_cap ci m used want retain0 =
     (case get_cap_for_mds ci m of
        None \<Rightarrow> Inl NULL_DEREF
      | Some cap \<Rightarrow>
          let revoking = implemented cap AND NOT (issued cap);
              retain = retain0 AND NOT revoking
          in if retain AND CEPH_CAP_PIN = 0 then Inl BUG_OTHER
             else
               let ci1 = ci\<lparr>i_ceph_flags := i_ceph_flags ci AND NOT CEPH_I_FLUSH\<rparr>;
                   cap1 = cap\<lparr>issued := issued cap AND retain\<rparr>;
                   cap2 = cap1\<lparr>implemented := implemented cap1 AND (issued cap1 OR used),
                               mds_wanted := want\<rparr>;
                   ci2 = (if i_auth_cap ci1 = Some m then
                            (if want AND CEPH_CAP_ANY_FILE_WR \<noteq> 0
                             then ci1\<lparr>i_requested_max_size := i_wanted_max_size ci1\<rparr>
                             else ci1\<lparr>i_requested_max_size := 0\<rparr>)
                          else ci1)
               in Inr (store_cap ci2 cap2))"

text \<open>
  \<^verbatim>\<open>ceph_encode_inode_release\<close>: the caps \<open>drop\<close> are given up with a request to MDS
  \<open>m\<close>.  \<open>wanted\<close> is what \<^verbatim>\<open>__ceph_caps_wanted\<close> returns.  The result carries the
  return value; the encoded record is left out.
\<close>

definition ceph_encode_inode_release ::
  "ceph_mds_client \<Rightarrow> 64 word \<Rightarrow> ceph_inode_info \<Rightarrow> int \<Rightarrow> 32 word \<Rightarrow> 32 word \<Rightarrow> bool
     \<Rightarrow> 32 word \<Rightarrow> ceph_inode_info \<times> int" where
  "ceph_encode_inode_release mdsc jiffies ci m drop0 unless0 force wanted =
     (let used = ceph_caps_used ci;
          dirty = ceph_caps_dirty ci;
          drop1 = drop0 AND NOT (used OR dirty)
      in case get_cap_for_mds ci m of
           None \<Rightarrow> (ci, 0)
         | Some cap \<Rightarrow>
             if \<not> cap_is_valid mdsc jiffies cap then (ci, 0)
             else
               let unless = unless0 AND issued cap;
                   d1 = (if unless AND CEPH_CAP_AUTH_EXCL \<noteq> 0
                         then drop1 AND NOT CEPH_CAP_AUTH_SHARED else drop1);
                   d2 = (if unless AND CEPH_CAP_LINK_EXCL \<noteq> 0
                         then d1 AND NOT CEPH_CAP_LINK_SHARED else d1);
                   d3 = (if unless AND CEPH_CAP_XATTR_EXCL \<noteq> 0
                         then d2 AND NOT CEPH_CAP_XATTR_SHARED else d2);
                   drop = (if unless AND CEPH_CAP_FILE_EXCL \<noteq> 0
                           then d3 AND NOT CEPH_CAP_FILE_SHARED else d3)
               in if issued cap AND drop \<noteq> 0 then
                    (let cap1 = cap\<lparr>issued := issued cap AND NOT drop,
                                    implemented := implemented cap AND NOT drop,
                                    mds_wanted := wanted\<rparr>;
                         ci1 = (if i_auth_cap ci = Some m \<and> wanted AND CEPH_CAP_ANY_FILE_WR = 0
                                then ci\<lparr>i_requested_max_size := 0\<rparr> else ci)
                     in (store_cap ci1 cap1, 1))
                  else if force then (ci, 1)
                  else (ci, 0))"

text \<open>The end of \<^verbatim>\<open>handle_cap_export\<close> (\<^verbatim>\<open>out_unlock\<close>): a cap object that was
  allocated and not used goes back to the pool.\<close>

definition export_out ::
  "ceph_mds_client \<Rightarrow> ceph_inode_info \<Rightarrow> ceph_cap option
     \<Rightarrow> fault + (ceph_mds_client \<times> ceph_inode_info)" where
  "export_out mdsc ci new_cap =
     (case new_cap of
        None \<Rightarrow> Inr (mdsc, ci)
      | Some obj \<Rightarrow>
          (case ceph_put_cap mdsc of Inl e \<Rightarrow> Inl e | Inr mdsc' \<Rightarrow> Inr (mdsc', ci)))"

text \<open>
  \<^verbatim>\<open>handle_cap_export\<close> from the label \<^verbatim>\<open>retry\<close> on, for the session of MDS \<open>m\<close>
  and a message with cap id \<open>ex_cap_id\<close> that exports to MDS \<open>target\<close> (negative:
  no peer) with \<open>t_cap_id\<close>, \<open>t_issue_seq\<close>, \<open>t_mseq\<close>.  \<open>tsession\<close> tells whether
  the session of the target is open, \<open>new_cap\<close> is the cap object in hand.
  \<open>open_ok\<close> is the outcome of \<^verbatim>\<open>ceph_mdsc_open_export_target_session\<close>,
  \<open>alloc_ok\<close> the outcome of the allocation in \<^verbatim>\<open>ceph_get_cap\<close> and \<open>obj\<close> the
  object it returns.
\<close>

function handle_cap_export_retry ::
  "bool \<Rightarrow> bool \<Rightarrow> ceph_cap \<Rightarrow> ceph_mds_client \<Rightarrow> ceph_inode_info \<Rightarrow> int \<Rightarrow> 64 word
     \<Rightarrow> 64 word \<Rightarrow> 32 word \<Rightarrow> 32 word \<Rightarrow> int \<Rightarrow> bool \<Rightarrow> ceph_cap option
     \<Rightarrow> fault + (ceph_mds_client \<times> ceph_inode_info)" where
  "handle_cap_export_retry open_ok alloc_ok obj mdsc ci m ex_cap_id
       t_cap_id t_issue_seq t_mseq target tsession new_cap =
     (case get_cap_for_mds ci m of
        None \<Rightarrow> export_out mdsc ci new_cap
      | Some cap \<Rightarrow>
          if cap_id cap \<noteq> ex_cap_id then export_out mdsc ci new_cap
          else if target < 0 then
            (case ceph_remove_cap mdsc ci m False of
               Inl e \<Rightarrow> Inl e
             | Inr (mdsc1, ci1) \<Rightarrow> export_out mdsc1 ci1 new_cap)
          else
            (case get_cap_for_mds ci target of
               Some tcap \<Rightarrow>
                 let ci1 =
                   (if cap_id tcap = t_cap_id \<and> ceph_seq_cmp (seq tcap) t_issue_seq < 0 then
                      (let ci' = store_cap ci
                                   (tcap\<lparr>cap_id := t_cap_id, seq := t_issue_seq - 1,
                                         issue_seq := t_issue_seq - 1,
                                         issued := issued tcap OR issued cap,
                                         implemented := implemented tcap OR issued cap\<rparr>)
                       in if i_auth_cap ci' = Some m
                          then change_auth_cap_ses (ci'\<lparr>i_auth_cap := Some target\<rparr>) target
                          else ci')
                    else ci)
                 in (case ceph_remove_cap mdsc ci1 m False of
                       Inl e \<Rightarrow> Inl e
                     | Inr (mdsc2, ci2) \<Rightarrow> export_out mdsc2 ci2 new_cap)
             | None \<Rightarrow>
                 if tsession then
                   (let flag = (if i_auth_cap ci = Some m then CEPH_CAP_FLAG_AUTH else 0)
                    in case ceph_add_cap mdsc ci target t_cap_id (issued cap) 0
                              (t_issue_seq - 1) t_mseq flag new_cap of
                         Inl e \<Rightarrow> Inl e
                       | Inr (mdsc1, ci1, new_cap1) \<Rightarrow>
                           let ci2 = (if i_cap_flush_list ci1 \<noteq> [] \<and> i_auth_cap ci1 = Some target
                                      then ci1\<lparr>i_flushing_item := Some target\<rparr> else ci1)
                           in (case ceph_remove_cap mdsc1 ci2 m False of
                                 Inl e \<Rightarrow> Inl e
                               | Inr (mdsc3, ci3) \<Rightarrow> export_out mdsc3 ci3 new_cap1))
                 else if open_ok then
                   (case ceph_get_cap alloc_ok mdsc None of
                      Inl e \<Rightarrow> Inl e
                    | Inr (mdsc1, ctx, got) \<Rightarrow>
                        handle_cap_export_retry open_ok alloc_ok obj mdsc1 ci m ex_cap_id
                          t_cap_id t_issue_seq t_mseq target True
                          (if got then Some obj else None))
                 else
                   handle_cap_export_retry open_ok alloc_ok obj mdsc ci m ex_cap_id
                     t_cap_id t_issue_seq t_mseq (- 1) False None))"
  by pat_completeness auto
termination
  by (relation "measure (\<lambda>(open_ok, alloc_ok, obj, mdsc, ci, m, ex_cap_id, t_cap_id, t_issue_seq,
                            t_mseq, target, tsession, new_cap).
                   if tsession \<or> target < 0 then 0 else 1)")
     auto

declare handle_cap_export_retry.simps [simp del]

text \<open>The peer of an export or import, \<^verbatim>\<open>struct ceph_mds_cap_peer\<close>.\<close>

record ceph_mds_cap_peer =
  p_cap_id :: "64 word"
  p_issue_seq :: "32 word"
  p_mseq :: "32 word"
  p_mds :: "32 word"
  p_flags :: "8 word"

text \<open>\<^verbatim>\<open>handle_cap_export\<close>; \<open>ph\<close> is the peer, when the message has one.\<close>

definition handle_cap_export ::
  "bool \<Rightarrow> bool \<Rightarrow> ceph_cap \<Rightarrow> ceph_mds_client \<Rightarrow> ceph_inode_info \<Rightarrow> int \<Rightarrow> ceph_mds_caps
     \<Rightarrow> ceph_mds_cap_peer option \<Rightarrow> fault + (ceph_mds_client \<times> ceph_inode_info)" where
  "handle_cap_export open_ok alloc_ok obj mdsc ci m ex ph =
     (case ph of
        Some peer \<Rightarrow>
          handle_cap_export_retry open_ok alloc_ok obj mdsc ci m (m_cap_id ex)
            (p_cap_id peer) (p_issue_seq peer) (p_mseq peer) (sint (p_mds peer)) False None
      | None \<Rightarrow>
          handle_cap_export_retry open_ok alloc_ok obj mdsc ci m (m_cap_id ex)
            0 0 0 (- 1) False None)"

text \<open>
  The allocation of \<^verbatim>\<open>handle_cap_import\<close>, which tries \<^verbatim>\<open>ceph_get_cap\<close> again and
  again until it returns a cap.  \<open>kmem\<close> lists the outcomes of the allocations; with
  none left the loop has not come to an end (\<open>None\<close>).
\<close>

fun import_get_cap ::
  "bool list \<Rightarrow> ceph_mds_client \<Rightarrow> (fault + ceph_mds_client) option" where
  "import_get_cap [] mdsc = None"
| "import_get_cap (alloc_ok # kmem) mdsc =
     (case ceph_get_cap alloc_ok mdsc None of
        Inl e \<Rightarrow> Some (Inl e)
      | Inr (mdsc1, ctx, got) \<Rightarrow> if got then Some (Inr mdsc1) else import_get_cap kmem mdsc1)"

text \<open>
  \<^verbatim>\<open>handle_cap_import\<close> for the session of MDS \<open>m\<close>.  The result carries
  \<^verbatim>\<open>*old_issued\<close>; \<^verbatim>\<open>*target_cap\<close> is the cap of MDS \<open>m\<close>.
\<close>

definition handle_cap_import ::
  "bool list \<Rightarrow> ceph_cap \<Rightarrow> ceph_mds_client \<Rightarrow> 64 word \<Rightarrow> ceph_inode_info \<Rightarrow> int
     \<Rightarrow> ceph_mds_caps \<Rightarrow> ceph_mds_cap_peer option
     \<Rightarrow> (fault + (ceph_mds_client \<times> ceph_inode_info \<times> 32 word)) option" where
  "handle_cap_import kmem obj mdsc jiffies ci m im ph =
     (case (case get_cap_for_mds ci m of
              None \<Rightarrow>
                (case import_get_cap kmem mdsc of
                   None \<Rightarrow> None
                 | Some (Inl e) \<Rightarrow> Some (Inl e)
                 | Some (Inr mdsc1) \<Rightarrow> Some (Inr (mdsc1, Some obj)))
            | Some cap \<Rightarrow> Some (Inr (mdsc, None))) of
        None \<Rightarrow> None
      | Some (Inl e) \<Rightarrow> Some (Inl e)
      | Some (Inr (mdsc1, new_cap)) \<Rightarrow>
          let old_issued = snd (ceph_caps_issued mdsc1 jiffies ci) OR ceph_caps_dirty ci
          in (case ceph_add_cap mdsc1 ci m (m_cap_id im) (m_caps im) (m_wanted im) (m_seq im)
                     (m_migrate_seq im) CEPH_CAP_FLAG_AUTH new_cap of
                Inl e \<Rightarrow> Some (Inl e)
              | Inr (mdsc2, ci2, new_cap2) \<Rightarrow>
                  (case ph of
                     None \<Rightarrow> Some (Inr (mdsc2, ci2, old_issued))
                   | Some peer \<Rightarrow>
                       (case (if 0 \<le> sint (p_mds peer)
                              then get_cap_for_mds ci2 (sint (p_mds peer)) else None) of
                          None \<Rightarrow> Some (Inr (mdsc2, ci2, old_issued))
                        | Some ocap \<Rightarrow>
                            if cap_id ocap = p_cap_id peer then
                              (case ceph_remove_cap mdsc2 ci2 (mds ocap)
                                      (ucast (p_flags peer) AND CEPH_CAP_FLAG_RELEASE \<noteq> 0) of
                                 Inl e \<Rightarrow> Some (Inl e)
                               | Inr (mdsc3, ci3) \<Rightarrow> Some (Inr (mdsc3, ci3, old_issued)))
                            else Some (Inr (mdsc2, ci2, old_issued))))))"

subsection \<open>The flush tracker\<close>
















subsection \<open>Taking references to caps\<close>

text \<open>Error numbers (\<^verbatim>\<open>errno.h\<close>), the flags of \<^verbatim>\<open>try_get_cap_refs\<close> and the file modes
  of \<^verbatim>\<open>ceph_fs.h\<close>.\<close>

definition EIO :: int where "EIO = 5"
definition EAGAIN :: int where "EAGAIN = 11"
definition EFBIG :: int where "EFBIG = 27"
definition EROFS :: int where "EROFS = 30"
definition ESTALE :: int where "ESTALE = 116"
definition EUCLEAN :: int where "EUCLEAN = 117"

definition NON_BLOCKING :: "32 word" where "NON_BLOCKING = 0x100"
definition CHECK_FILELOCK :: "32 word" where "CHECK_FILELOCK = 0x200"
definition CEPH_FILE_MODE_RD :: "32 word" where "CEPH_FILE_MODE_RD = 1"
definition CEPH_FILE_MODE_WR :: "32 word" where "CEPH_FILE_MODE_WR = 2"

text \<open>\<^verbatim>\<open>ceph_take_cap_refs\<close>; the first reference to \<^verbatim>\<open>FILE_BUFFER\<close> holds the inode
  (\<^verbatim>\<open>ihold\<close>).\<close>

definition ceph_take_cap_refs ::
  "ceph_inode_info \<Rightarrow> 32 word \<Rightarrow> bool \<Rightarrow> fault + ceph_inode_info" where
  "ceph_take_cap_refs ci got snap_rwsem_locked =
     (let ci1 = (if got AND CEPH_CAP_PIN \<noteq> 0 then ci\<lparr>i_pin_ref := i_pin_ref ci + 1\<rparr> else ci);
          ci2 = (if got AND CEPH_CAP_FILE_RD \<noteq> 0 then ci1\<lparr>i_rd_ref := i_rd_ref ci1 + 1\<rparr>
                 else ci1);
          ci3 = (if got AND CEPH_CAP_FILE_CACHE \<noteq> 0
                 then ci2\<lparr>i_rdcache_ref := i_rdcache_ref ci2 + 1\<rparr> else ci2);
          ci4 = (if got AND CEPH_CAP_FILE_EXCL \<noteq> 0 then ci3\<lparr>i_fx_ref := i_fx_ref ci3 + 1\<rparr>
                 else ci3)
      in if got AND CEPH_CAP_FILE_WR \<noteq> 0 \<and> i_wr_ref ci4 = 0 \<and> \<not> i_head_snapc ci4
            \<and> \<not> snap_rwsem_locked
         then Inl BUG_OTHER
         else
           let ci5 = (if got AND CEPH_CAP_FILE_WR \<noteq> 0
                      then ci4\<lparr>i_head_snapc := True, i_wr_ref := i_wr_ref ci4 + 1\<rparr>
                      else ci4);
               ci6 = (if got AND CEPH_CAP_FILE_BUFFER \<noteq> 0
                      then (if i_wb_ref ci5 = 0 then ci5\<lparr>i_count := i_count ci5 + 1\<rparr>
                            else ci5)\<lparr>i_wb_ref := i_wb_ref ci5 + 1\<rparr>
                      else ci5)
           in Inr ci6)"

text \<open>\<^verbatim>\<open>__ceph_caps_mds_wanted\<close>; \<open>check\<close> skips the caps that are not valid.\<close>

definition ceph_caps_mds_wanted ::
  "ceph_mds_client \<Rightarrow> 64 word \<Rightarrow> ceph_inode_info \<Rightarrow> bool \<Rightarrow> 32 word" where
  "ceph_caps_mds_wanted mdsc jiffies ci check =
     fold (\<lambda>cap w.
             if check \<and> \<not> cap_is_valid mdsc jiffies cap then w
             else if i_auth_cap ci = Some (mds cap) then w OR mds_wanted cap
             else w OR (mds_wanted cap AND NOT CEPH_CAP_ANY_FILE_WR))
          (i_caps ci) 0"

text \<open>\<^verbatim>\<open>__ceph_have_pending_cap_snap\<close> of \<^verbatim>\<open>super.h\<close>: the last cap snap is still
  being written.\<close>

definition ceph_have_pending_cap_snap :: "ceph_inode_info \<Rightarrow> bool" where
  "ceph_have_pending_cap_snap ci \<longleftrightarrow>
     i_cap_snaps ci \<noteq> [] \<and> cs_writing (last (i_cap_snaps ci)) \<noteq> 0"

text \<open>\<^verbatim>\<open>__ceph_touch_fmode\<close> at the time \<open>jiffies\<close>; the queueing of the periodic check
  is left out.\<close>

definition ceph_touch_fmode :: "ceph_inode_info \<Rightarrow> 64 word \<Rightarrow> 32 word \<Rightarrow> ceph_inode_info" where
  "ceph_touch_fmode ci jiffies fmode =
     (let ci1 = (if fmode AND CEPH_FILE_MODE_RD \<noteq> 0 then ci\<lparr>i_last_rd := jiffies\<rparr> else ci)
      in if fmode AND CEPH_FILE_MODE_WR \<noteq> 0 then ci1\<lparr>i_last_wr := jiffies\<rparr> else ci1)"

text \<open>\<^verbatim>\<open>__ceph_do_pending_vmtruncate\<close> is not part of this file.  Modelled from the spec:
  missing is the truncation primitive of the cache layer the core calls back into; it
  completes the pending truncations of the inode, so none is pending afterwards.\<close>

definition ceph_do_pending_vmtruncate :: "ceph_inode_info \<Rightarrow> ceph_inode_info" where
  "ceph_do_pending_vmtruncate ci = ci\<lparr>i_truncate_pending := 0\<rparr>"

text \<open>
  One pass of \<^verbatim>\<open>try_get_cap_refs\<close> from the label \<^verbatim>\<open>again\<close> on, at the time
  \<open>jiffies\<close>: it ends at \<^verbatim>\<open>out_unlock\<close> with the return value, \<^verbatim>\<open>*got\<close> when it
  was written and the inode, or it goes back to \<^verbatim>\<open>again\<close> after it has waited for
  \<^verbatim>\<open>snap_rwsem\<close>.  \<open>trylock_ok\<close> is the outcome of \<^verbatim>\<open>down_read_trylock\<close> on
  \<^verbatim>\<open>snap_rwsem\<close>, \<open>endoff\<close> is the signed 64-bit offset.
\<close>

datatype pass_result =
    Out "fault + (int \<times> 32 word option \<times> ceph_inode_info)"
  | Again ceph_inode_info

definition try_get_cap_refs_pass ::
  "bool \<Rightarrow> ceph_mds_client \<Rightarrow> 64 word \<Rightarrow> ceph_inode_info \<Rightarrow> 32 word \<Rightarrow> 32 word \<Rightarrow> 64 word
     \<Rightarrow> 32 word \<Rightarrow> bool \<Rightarrow> pass_result" where
  "try_get_cap_refs_pass trylock_ok mdsc jiffies ci need want endoff flags snap_rwsem_locked =
     (if flags AND CHECK_FILELOCK \<noteq> 0 \<and> i_ceph_flags ci AND CEPH_I_ERROR_FILELOCK \<noteq> 0
      then Out (Inr (- EIO, None, ceph_touch_fmode ci jiffies flags))
      else
        let ci1 = (if i_truncate_pending ci \<noteq> 0 then ceph_do_pending_vmtruncate ci else ci);
            locked1 = (if i_truncate_pending ci \<noteq> 0 then False else snap_rwsem_locked);
            have = fst (ceph_caps_issued mdsc jiffies ci1);
            implemented = snd (ceph_caps_issued mdsc jiffies ci1)
        in if have AND need AND CEPH_CAP_FILE_WR \<noteq> 0
              \<and> 0 \<le> sint endoff \<and> sint endoff > sint (i_max_size ci1)
           then Out (Inr (if endoff > i_requested_max_size ci1
                          then (if i_auth_cap ci1 \<noteq> None then - EFBIG else - EUCLEAN) else 0,
                          None, ceph_touch_fmode ci1 jiffies flags))
           else if have AND need AND CEPH_CAP_FILE_WR \<noteq> 0 \<and> ceph_have_pending_cap_snap ci1
           then Out (Inr (0, None, ceph_touch_fmode ci1 jiffies flags))
           else if have AND need = need then
             (let not = want AND NOT (have AND need);
                  revoking = implemented AND NOT have;
                  exclude = revoking AND not;
                  got = (if have AND want = want then need OR (want AND NOT exclude) else need)
              in if exclude = 0 \<or> exclude AND CEPH_CAP_FILE_BUFFER = 0 then
                   (if \<not> locked1 \<and> \<not> i_head_snapc ci1 \<and> need AND CEPH_CAP_FILE_WR \<noteq> 0
                       \<and> \<not> trylock_ok then
                      (if flags AND NON_BLOCKING \<noteq> 0
                       then Out (Inr (- EAGAIN, None, ceph_touch_fmode ci1 jiffies flags))
                       else Again ci1)
                    else
                      (case ceph_take_cap_refs ci1 got True of
                         Inl e \<Rightarrow> Out (Inl e)
                       | Inr ci2 \<Rightarrow> Out (Inr (1, Some got, ceph_touch_fmode ci2 jiffies flags))))
                 else Out (Inr (0, None, ceph_touch_fmode ci1 jiffies flags)))
           else
             (let session_readonly =
                    (case i_auth_cap ci1 of
                       None \<Rightarrow> False
                     | Some a \<Rightarrow>
                         need AND (CEPH_CAP_FILE_WR OR CEPH_CAP_FILE_EXCL) \<noteq> 0
                         \<and> s_readonly (sessions mdsc a))
              in if session_readonly
                 then Out (Inr (- EROFS, None, ceph_touch_fmode ci1 jiffies flags))
                 else if i_shutdown ci1
                 then Out (Inr (- ESTALE, None, ceph_touch_fmode ci1 jiffies flags))
                 else if need AND NOT (ceph_caps_mds_wanted mdsc jiffies ci1 False) \<noteq> 0
                 then Out (Inr (- EUCLEAN, None, ceph_touch_fmode ci1 jiffies flags))
                 else Out (Inr (0, None, ceph_touch_fmode ci1 jiffies flags))))"

text \<open>
  \<^verbatim>\<open>try_get_cap_refs\<close>: the passes from \<^verbatim>\<open>again\<close>, the first one with
  \<open>snap_rwsem_locked = False\<close>; after the wait for \<^verbatim>\<open>snap_rwsem\<close> the lock is held.
\<close>

function try_get_cap_refs ::
  "bool \<Rightarrow> ceph_mds_client \<Rightarrow> 64 word \<Rightarrow> ceph_inode_info \<Rightarrow> 32 word \<Rightarrow> 32 word \<Rightarrow> 64 word
     \<Rightarrow> 32 word \<Rightarrow> bool \<Rightarrow> fault + (int \<times> 32 word option \<times> ceph_inode_info)" where
  "try_get_cap_refs trylock_ok mdsc jiffies ci need want endoff flags snap_rwsem_locked =
     (case try_get_cap_refs_pass trylock_ok mdsc jiffies ci need want endoff flags
             snap_rwsem_locked of
        Out r \<Rightarrow> r
      | Again ci1 \<Rightarrow>
          try_get_cap_refs trylock_ok mdsc jiffies ci1 need want endoff flags True)"
  by pat_completeness auto
termination
proof (relation "measure (\<lambda>(trylock_ok, mdsc, jiffies, ci, need, want, endoff, flags, locked).
                   (if i_truncate_pending ci \<noteq> 0 then 2 else 0) + (if locked then 0 else 1))",
    goal_cases)
  case 1
  show ?case by simp
next
  case (2 trylock_ok mdsc jiffies ci need want endoff flags locked ci1)
  then have "i_truncate_pending ci1 = 0 \<and> (i_truncate_pending ci \<noteq> 0 \<or> \<not> locked)"
    by (auto simp: try_get_cap_refs_pass_def Let_def ceph_do_pending_vmtruncate_def
        split: if_splits sum.splits)
  then show ?case by auto
qed

declare try_get_cap_refs.simps [simp del]

text \<open>\<^verbatim>\<open>get_used_fmode\<close>.\<close>

definition get_used_fmode :: "32 word \<Rightarrow> 32 word" where
  "get_used_fmode caps0 =
     (if caps0 AND CEPH_CAP_FILE_RD \<noteq> 0 then CEPH_FILE_MODE_RD else 0)
     OR (if caps0 AND CEPH_CAP_FILE_WR \<noteq> 0 then CEPH_FILE_MODE_WR else 0)"

text \<open>
  \<^verbatim>\<open>ceph_try_get_caps\<close>.  \<open>perm\<close> is what \<^verbatim>\<open>ceph_pool_perm_check\<close> (not part of this
  file) returns for the inode and \<open>need\<close>.
\<close>

definition ceph_try_get_caps ::
  "int \<Rightarrow> bool \<Rightarrow> ceph_mds_client \<Rightarrow> 64 word \<Rightarrow> ceph_inode_info \<Rightarrow> 32 word \<Rightarrow> 32 word
     \<Rightarrow> bool \<Rightarrow> fault + (int \<times> 32 word option \<times> ceph_inode_info)" where
  "ceph_try_get_caps perm trylock_ok mdsc jiffies ci need want nonblock =
     (if need AND NOT CEPH_CAP_FILE_RD \<noteq> 0 then Inl BUG_OTHER
      else if want AND NOT (CEPH_CAP_FILE_CACHE OR CEPH_CAP_FILE_LAZYIO OR CEPH_CAP_FILE_SHARED
                            OR CEPH_CAP_FILE_EXCL OR CEPH_CAP_ANY_DIR_OPS) \<noteq> 0
      then Inl BUG_OTHER
      else if need \<noteq> 0 \<and> perm < 0 then Inr (perm, None, ci)
      else
        let flags = get_used_fmode (need OR want)
                    OR (if nonblock then NON_BLOCKING else 0)
        in case try_get_cap_refs trylock_ok mdsc jiffies ci need want 0 flags False of
             Inl e \<Rightarrow> Inl e
           | Inr (ret, got, ci') \<Rightarrow>
               Inr (if ret = - EAGAIN \<or> ret = - EFBIG \<or> ret = - EUCLEAN then 0 else ret,
                    got, ci'))"

subsection \<open>The dispatch of a cap message\<close>












text \<open>The tids of the flush objects of a list, in the order of the list.\<close>

definition tids_of :: "ceph_mds_client \<Rightarrow> nat list \<Rightarrow> 64 word list" where
  "tids_of mdsc cfs = map (\<lambda>cf. tid (cf_mem mdsc cf)) cfs"

text \<open>A list of flush objects in the order of the tracker: strictly increasing tids, all
  of them handed out by the counter (above 0 and not beyond it).\<close>

definition tid_ordered :: "ceph_mds_client \<Rightarrow> nat list \<Rightarrow> bool" where
  "tid_ordered mdsc cfs \<longleftrightarrow>
     sorted_wrt (<) (tids_of mdsc cfs)
   \<and> list_all (\<lambda>t. 0 < t \<and> t \<le> last_cap_flush_tid mdsc) (tids_of mdsc cfs)"


text \<open>Two states of the client with the same tids in memory and the same counter.\<close>

definition same_tids :: "ceph_mds_client \<Rightarrow> ceph_mds_client \<Rightarrow> bool" where
  "same_tids m m' \<longleftrightarrow>
     (\<forall>a. tid (cf_mem m' a) = tid (cf_mem m a))
   \<and> last_cap_flush_tid m' = last_cap_flush_tid m"

text \<open>From one state of the client to a later one: the counter has not gone back, and
  a flush object on the global list either was there with the same tid or has a tid
  beyond the earlier counter.\<close>

definition tids_advance :: "ceph_mds_client \<Rightarrow> ceph_mds_client \<Rightarrow> bool" where
  "tids_advance m m' \<longleftrightarrow>
     last_cap_flush_tid m \<le> last_cap_flush_tid m'
   \<and> (\<forall>a\<in>set (cap_flush_list m').
        (a \<in> set (cap_flush_list m) \<and> tid (cf_mem m' a) = tid (cf_mem m a))
        \<or> last_cap_flush_tid m < tid (cf_mem m' a))"

subsection \<open>Issued within implemented\<close>

text \<open>The invariant of a cap, \<^verbatim>\<open>!(cap->issued & ~cap->implemented)\<close>, and of all caps
  of an inode.\<close>

definition cap_subset :: "ceph_cap \<Rightarrow> bool" where
  "cap_subset c \<longleftrightarrow> issued c AND NOT (implemented c) = 0"

definition caps_subset :: "ceph_inode_info \<Rightarrow> bool" where
  "caps_subset ci \<longleftrightarrow> list_all cap_subset (i_caps ci)"

text \<open>
  The mutations of the capability state of an inode, as events: a cap is added, a
  grant or revoke message is applied, an export is handled, an import is handled
  (\<^verbatim>\<open>ceph_handle_caps\<close> applies the grant of the message right after
  \<^verbatim>\<open>handle_cap_import\<close>), the reconciliation prepares a cap for a message, caps are
  released with a request, a cap is removed; \<open>Elsewhere\<close> stands for everything
  else that happens to the client (sessions that are renewed or reset, the pool).
  The arguments of an event are those of the function it calls.
\<close>

datatype cap_event =
    Add_cap int "64 word" "32 word" "32 word" "32 word" "32 word" "32 word" "ceph_cap option"
  | Grant int ceph_mds_caps "32 word" "32 word" nat
  | Export bool bool ceph_cap int ceph_mds_caps "ceph_mds_cap_peer option"
  | Import "bool list" ceph_cap "64 word" int ceph_mds_caps "ceph_mds_cap_peer option"
      "32 word" nat
  | Prep int "32 word" "32 word" "32 word"
  | Release "64 word" int "32 word" "32 word" bool "32 word"
  | Remove int bool
  | Elsewhere ceph_mds_client

text \<open>One event; \<open>None\<close> when the allocation of an import never succeeds.\<close>

fun cap_step ::
  "cap_event \<Rightarrow> ceph_mds_client \<times> ceph_inode_info
     \<Rightarrow> (fault + ceph_mds_client \<times> ceph_inode_info) option" where
  "cap_step (Add_cap session capid iss wanted sq msq flags new_cap) (mdsc, ci) =
     (case ceph_add_cap mdsc ci session capid iss wanted sq msq flags new_cap of
        Inl e \<Rightarrow> Some (Inl e)
      | Inr (mdsc', ci', new_cap') \<Rightarrow> Some (Inr (mdsc', ci')))"
| "cap_step (Grant session grant extra_issued wanted pages_left) (mdsc, ci) =
     (case handle_cap_grant mdsc ci session grant extra_issued wanted pages_left of
        Inl e \<Rightarrow> Some (Inl e)
      | Inr r \<Rightarrow> Some (Inr (mdsc, gr_ci r)))"
| "cap_step (Export open_ok alloc_ok obj m ex ph) (mdsc, ci) =
     Some (handle_cap_export open_ok alloc_ok obj mdsc ci m ex ph)"
| "cap_step (Import kmem obj jiffies m im ph wanted pages_left) (mdsc, ci) =
     (case handle_cap_import kmem obj mdsc jiffies ci m im ph of
        None \<Rightarrow> None
      | Some (Inl e) \<Rightarrow> Some (Inl e)
      | Some (Inr (mdsc1, ci1, old_issued)) \<Rightarrow>
          (case handle_cap_grant mdsc1 ci1 m im old_issued wanted pages_left of
             Inl e \<Rightarrow> Some (Inl e)
           | Inr r \<Rightarrow> Some (Inr (mdsc1, gr_ci r))))"
| "cap_step (Prep m used want retain) (mdsc, ci) =
     (case prep_cap ci m used want retain of
        Inl e \<Rightarrow> Some (Inl e)
      | Inr ci' \<Rightarrow> Some (Inr (mdsc, ci')))"
| "cap_step (Release jiffies m drop0 unless0 force wanted) (mdsc, ci) =
     Some (Inr (mdsc,
       fst (ceph_encode_inode_release mdsc jiffies ci m drop0 unless0 force wanted)))"
| "cap_step (Remove m queue_release) (mdsc, ci) = Some (ceph_remove_cap mdsc ci m queue_release)"
| "cap_step (Elsewhere mdsc') (mdsc, ci) = Some (Inr (mdsc', ci))"

fun cap_run ::
  "cap_event list \<Rightarrow> ceph_mds_client \<times> ceph_inode_info
     \<Rightarrow> (fault + ceph_mds_client \<times> ceph_inode_info) option" where
  "cap_run [] st = Some (Inr st)"
| "cap_run (ev # evs) st =
     (case cap_step ev st of
        None \<Rightarrow> None
      | Some (Inl e) \<Rightarrow> Some (Inl e)
      | Some (Inr st') \<Rightarrow> cap_run evs st')"

text \<open>An outcome that respects the invariant: caps that satisfy it, or a fault other than
  the assertion of the invariant (or no outcome).\<close>

definition subset_ok :: "(fault + ceph_mds_client \<times> ceph_inode_info) option \<Rightarrow> bool" where
  "subset_ok r = (case r of None \<Rightarrow> True | Some (Inl e) \<Rightarrow> e \<noteq> BUG_ISSUED
                  | Some (Inr (mdsc', ci')) \<Rightarrow> caps_subset ci')"

text \<open>A cap object as the allocator may leave it, and the messages of a revocation: MDS 1
  takes \<^verbatim>\<open>CEPH_CAP_FILE_RD\<close> back and leaves \<^verbatim>\<open>CEPH_CAP_FILE_SHARED\<close>.\<close>

definition cap_object :: ceph_cap where
  "cap_object = \<lparr>mds = 0, cap_id = 0, issued = 0, implemented = 0, mds_wanted = 0, seq = 0,
     issue_seq = 0, mseq = 0, cap_gen = 0\<rparr>"

definition revoke_rd :: ceph_mds_caps where
  "revoke_rd = \<lparr>m_op = CEPH_CAP_OP_REVOKE, m_ino = 1, m_cap_id = 100, m_seq = 2,
     m_issue_seq = 2, m_migrate_seq = 0, m_caps = CEPH_CAP_FILE_SHARED OR CEPH_CAP_PIN,
     m_wanted = 0, m_dirty = 0, m_max_size = 0, m_snap_follows = 0\<rparr>"

subsection \<open>Concrete states\<close>

text \<open>A client with an empty pool, no flush in flight and the flush counter at 41; every
  session is in its first generation and its caps expire at time 1000.\<close>

definition mdsc_init :: ceph_mds_client where
  "mdsc_init = \<lparr>caps_total_count = 0, caps_use_count = 0, caps_reserve_count = 0,
     caps_avail_count = 0, caps_min_count = 0, caps_use_max = 0, caps_list = 0,
     last_cap_flush_tid = 41, cap_flush_list = [], num_cap_flushing = 0,
     cf_mem = (\<lambda>a. \<lparr>tid = 0, caps = 0, is_capsnap = False, wake = False\<rparr>),
     sessions = (\<lambda>m. \<lparr>s_cap_gen = 1, s_cap_ttl = 1000, s_readonly = False, s_nr_caps = 0,
                          s_cap_reconnect = False, s_cap_iterator = None,
                          s_cap_releases = [], s_num_cap_releases = 0\<rparr>)\<rparr>"

text \<open>An inode with no cap, nothing dirty and one reference.\<close>

definition inode_init :: ceph_inode_info where
  "inode_init = \<lparr>i_ino = 1, i_caps = [], i_auth_cap = None, i_snap_caps = 0,
     i_dirty_caps = 0, i_flushing_caps = 0, i_cap_flush_list = [],
     i_prealloc_cap_flush = None, i_dirty_item = None, i_flushing_item = None,
     i_count = 1, i_head_snapc = False, i_cap_snaps = [], i_pin_ref = 0, i_rd_ref = 0,
     i_rdcache_ref = 0, i_wr_ref = 0, i_wb_ref = 0, i_fx_ref = 0, i_wrbuffer_ref = 0,
     i_wrbuffer_ref_head = 0, i_max_size = 0, i_wanted_max_size = 0,
     i_requested_max_size = 0, i_truncate_pending = 0, i_ceph_flags = 0,
     i_rdcache_gen = 0, i_rdcache_revoking = 0, i_is_reg = True, i_nrpages = 0,
     i_shutdown = False, i_last_rd = 0, i_last_wr = 0\<rparr>"



text \<open>An outcome of the allocator that respects the equation: a pool that satisfies it, or a
  fault other than the assertion of the equation.\<close>

definition pool_ok :: "fault + 'a caps_pool_scheme \<Rightarrow> bool" where
  "pool_ok r = (case r of Inl e \<Rightarrow> e \<noteq> BUG_CONSERVATION | Inr m' \<Rightarrow> pool_conserved m')"

text \<open>A pool with two free caps and nothing reserved or in use.\<close>

definition pool_two_free :: caps_pool where
  "pool_two_free = \<lparr>caps_total_count = 2, caps_use_count = 0, caps_reserve_count = 0,
     caps_avail_count = 2, caps_min_count = 0, caps_use_max = 0, caps_list = 2\<rparr>"

subsection \<open>A cap with an old grant\<close>

text \<open>The auth cap of MDS 0 with \<^verbatim>\<open>pin\<close> and \<^verbatim>\<open>FILE_RD\<close> issued at sequence number 5,
  in the generation of its session, and the same cap one generation behind; a grant of
  \<^verbatim>\<open>pin\<close> alone with the older sequence number 3.\<close>

definition cap_rd :: ceph_cap where
  "cap_rd = \<lparr>mds = 0, cap_id = 100, issued = CEPH_CAP_PIN OR CEPH_CAP_FILE_RD,
     implemented = CEPH_CAP_PIN OR CEPH_CAP_FILE_RD, mds_wanted = 0, seq = 5,
     issue_seq = 1, mseq = 0, cap_gen = 1\<rparr>"

definition inode_rd :: ceph_inode_info where
  "inode_rd = inode_init\<lparr>i_caps := [cap_rd], i_auth_cap := Some 0\<rparr>"

definition inode_rd_stale :: ceph_inode_info where
  "inode_rd_stale = inode_init\<lparr>i_caps := [cap_rd\<lparr>cap_gen := 0\<rparr>], i_auth_cap := Some 0\<rparr>"

definition grant_old :: ceph_mds_caps where
  "grant_old = \<lparr>m_op = CEPH_CAP_OP_GRANT, m_ino = 1, m_cap_id = 100, m_seq = 3,
     m_issue_seq = 1, m_migrate_seq = 0, m_caps = CEPH_CAP_PIN,
     m_wanted = 0, m_dirty = 0, m_max_size = 0, m_snap_follows = 0\<rparr>"

section \<open>Properties\<close>

subsection \<open>Conservation in the reservation pool\<close>

lemma put_cap_conserved:
  "pool_conserved m \<Longrightarrow> \<exists>m'. ceph_put_cap m = Inr m' \<and> pool_conserved m'"
  by (simp add: ceph_put_cap_def pool_conserved_def Let_def)

lemma put_caps_conserved:
  "pool_conserved m \<Longrightarrow> \<exists>m'. put_caps n m = Inr m' \<and> pool_conserved m'"
proof (induction n arbitrary: m)
  case 0
  then show ?case by simp
next
  case (Suc n)
  from put_cap_conserved [OF Suc.prems] obtain m1 where
    m1: "ceph_put_cap m = Inr m1" "pool_conserved m1" by blast
  with Suc.IH [of m1] show ?case by simp
qed

lemma unreserve_locked_ok:
  "pool_conserved m \<Longrightarrow> pool_ok (unreserve_caps_locked m nr)"
  by (auto simp: pool_ok_def unreserve_caps_locked_def caps_list_take_def pool_conserved_def
      Let_def split: sum.splits)

text \<open>The allocation loop keeps the equation: it moves objects between the free and
  the reserved count only.\<close>

lemma reserve_loop_ok:
  "pool_conserved m \<Longrightarrow>
     (case reserve_loop kmem trim need i hv alloc newcaps trimmed m of
        Inl e \<Rightarrow> e \<noteq> BUG_CONSERVATION
      | Inr (m', h, a, n, e) \<Rightarrow> pool_conserved m')"
proof (induction kmem trim need i hv alloc newcaps trimmed m rule: reserve_loop.induct)
  case (1 kmem trim need i hv alloc newcaps trimmed m)
  show ?case
  proof (cases "sint i < sint need")
    case False
    with "1.prems" show ?thesis by (subst reserve_loop.simps) simp
  next
    case lt: True
    show ?thesis
    proof (cases "kmem \<noteq> [] \<and> hd kmem")
      case True
      with lt "1.IH"(1) "1.prems" show ?thesis by (subst reserve_loop.simps) simp
    next
      case nok: False
      show ?thesis
      proof (cases trimmed)
        case True
        with lt nok "1.prems" show ?thesis by (subst reserve_loop.simps) auto
      next
        case nt: False
        from put_caps_conserved [OF "1.prems"] obtain m1 where
          m1: "put_caps trim m = Inr m1" "pool_conserved m1" by blast
        show ?thesis
        proof (cases "caps_avail_count m1 = 0")
          case True
          with lt nok nt m1 "1.IH"(3) [of m1] show ?thesis
            by (subst reserve_loop.simps) auto
        next
          case False
          define mh where "mh = (if sint (caps_avail_count m1) \<ge> sint (need - i)
                                 then need - i else caps_avail_count m1)"
          have c: "pool_conserved (m1\<lparr>caps_avail_count := caps_avail_count m1 - mh,
                            caps_reserve_count := caps_reserve_count m1 + mh\<rparr>)"
            using m1(2) by (simp add: pool_conserved_def)
          have "case reserve_loop (tl kmem) trim need (i + mh) (hv + mh) alloc newcaps True
                  (m1\<lparr>caps_avail_count := caps_avail_count m1 - mh,
                      caps_reserve_count := caps_reserve_count m1 + mh\<rparr>) of
                  Inl e \<Rightarrow> e \<noteq> BUG_CONSERVATION
                | Inr (m', h, a, n, e) \<Rightarrow> pool_conserved m'"
            using lt nok nt m1(1) False mh_def c by (rule "1.IH"(2))
          with lt nok nt m1 False show ?thesis
            by (subst reserve_loop.simps) (auto simp: mh_def Let_def)
        qed
      qed
    qed
  qed
qed

lemma reserve_caps_ok:
  assumes "pool_conserved m"
  shows "pool_ok (map_sum id fst (ceph_reserve_caps kmem trim m ctx need))"
proof -
  define hv where "hv = (if sint (caps_avail_count m) \<ge> sint need then need
                         else caps_avail_count m)"
  define m1 where "m1 = m\<lparr>caps_avail_count := caps_avail_count m - hv,
                            caps_reserve_count := caps_reserve_count m + hv\<rparr>"
  have c1: "pool_conserved m1"
    using assms by (simp add: m1_def pool_conserved_def)
  note loop = reserve_loop_ok [OF c1, of kmem trim need hv hv 0 0 False]
  show ?thesis
  proof (cases "reserve_loop kmem trim need hv hv 0 0 False m1")
    case (Inl e)
    with loop c1 show ?thesis
      by (simp add: ceph_reserve_caps_def Let_def pool_ok_def flip: hv_def m1_def)
  next
    case (Inr r)
    obtain m2 h a n e where r: "r = (m2, h, a, n, e)" by (cases r)
    with loop Inr have c2: "pool_conserved m2" by simp
    define m3 where "m3 = m2\<lparr>caps_total_count := caps_total_count m2 + a,
                              caps_reserve_count := caps_reserve_count m2 + a,
                              caps_list := caps_list m2 + n\<rparr>"
    have c3: "pool_conserved m3"
      using c2 by (simp add: m3_def pool_conserved_def)
    from unreserve_locked_ok [OF c3, of "h + a"] Inr r c1 c3 show ?thesis
      by (auto simp: ceph_reserve_caps_def Let_def pool_ok_def
          simp flip: hv_def m1_def m3_def split: sum.splits)
  qed
qed

lemma unreserve_caps_ok:
  "pool_conserved m \<Longrightarrow> pool_ok (map_sum id fst (ceph_unreserve_caps m ctx))"
  using unreserve_locked_ok [of m "ctx_count ctx"]
  by (auto simp: ceph_unreserve_caps_def pool_ok_def split: sum.splits)

lemma get_cap_ok:
  "pool_conserved m \<Longrightarrow> pool_ok (map_sum id fst (ceph_get_cap alloc_ok m ctx))"
  by (auto simp: ceph_get_cap_def pool_ok_def pool_conserved_def Let_def split: option.splits)

lemma pool_step_ok: "pool_conserved m \<Longrightarrow> pool_ok (pool_step op m)"
proof (cases op)
  case (Reserve kmem trim ctx need)
  then show "pool_conserved m \<Longrightarrow> ?thesis" by (simp add: reserve_caps_ok)
next
  case (Unreserve ctx)
  then show "pool_conserved m \<Longrightarrow> ?thesis" by (simp add: unreserve_caps_ok)
next
  case (Get alloc_ok ctx)
  then show "pool_conserved m \<Longrightarrow> ?thesis" by (simp add: get_cap_ok)
next
  case Put
  then show "pool_conserved m \<Longrightarrow> ?thesis"
    using put_cap_conserved [of m] by (auto simp: pool_ok_def)
qed

lemma pool_run_ok: "pool_conserved m \<Longrightarrow> pool_ok (pool_run ops m)"
proof (induction ops arbitrary: m)
  case Nil
  then show ?case by (simp add: pool_ok_def)
next
  case (Cons op ops)
  show ?case
  proof (cases "pool_step op m")
    case (Inl e)
    with pool_step_ok [OF Cons.prems, of op] show ?thesis by (simp add: pool_ok_def)
  next
    case (Inr m')
    with pool_step_ok [OF Cons.prems, of op] have "pool_conserved m'"
      by (simp add: pool_ok_def)
    with Inr show ?thesis by (simp add: Cons.IH)
  qed
qed

lemma finalize_conserved: "pool_conserved (ceph_caps_finalize m)"
  by (simp add: ceph_caps_finalize_def pool_conserved_def)

text \<open>
  Claim C2.  Whenever the pool satisfies
  \<open>total = used + reserved + available\<close>, it satisfies the equation again after
  every run of allocator operations (reserve, unreserve, get with or without a
  reservation, put), whatever the allocator and the trimming do; and when an
  operation stops at a \<^verbatim>\<open>BUG_ON\<close>, it is never the one that asserts the equation.
  The pool that \<^verbatim>\<open>ceph_caps_finalize\<close> leaves satisfies it.
\<close>

theorem pool_conservation:
  assumes "pool_conserved m"
  shows "(case pool_run ops m of
            Inl e \<Rightarrow> e \<noteq> BUG_CONSERVATION
          | Inr m' \<Rightarrow> caps_total_count m' =
                        caps_use_count m' + caps_reserve_count m' + caps_avail_count m')
         \<and> pool_conserved (ceph_caps_finalize m)"
  using pool_run_ok [OF assms, of ops] finalize_conserved [of m]
  by (simp add: pool_ok_def pool_conserved_def split: sum.splits)

text \<open>
  Two free caps, none reserved: reserving four allocates exactly two more; a cap
  is then drawn from the reservation, returned, and the reservation given back.
\<close>

theorem pool_conservation_witness:
  "pool_conserved pool_two_free
   \<and> pool_run [Reserve [True, True] 0 \<lparr>ctx_count = 0, ctx_used = 0\<rparr> 4] pool_two_free
       = Inr (pool_two_free\<lparr>caps_total_count := 4, caps_reserve_count := 4,
                caps_avail_count := 0, caps_list := 4\<rparr>)
   \<and> (case pool_run [Reserve [True, True] 0 \<lparr>ctx_count = 0, ctx_used = 0\<rparr> 4,
                     Get False (Some \<lparr>ctx_count = 4, ctx_used = 0\<rparr>), Put,
                     Unreserve \<lparr>ctx_count = 3, ctx_used = 1\<rparr>] pool_two_free of
         Inl e \<Rightarrow> e \<noteq> BUG_CONSERVATION
       | Inr m' \<Rightarrow> caps_total_count m' =
                     caps_use_count m' + caps_reserve_count m' + caps_avail_count m')"
proof -
  have c: "pool_conserved pool_two_free"
    by (simp add: pool_two_free_def pool_conserved_def)
  have r: "pool_run [Reserve [True, True] 0 \<lparr>ctx_count = 0, ctx_used = 0\<rparr> 4] pool_two_free
       = Inr (pool_two_free\<lparr>caps_total_count := 4, caps_reserve_count := 4,
                caps_avail_count := 0, caps_list := 4\<rparr>)"
    by (simp add: pool_two_free_def ceph_reserve_caps_def reserve_loop.simps
        pool_conserved_def Let_def)
  from pool_conservation [OF c] c r show ?thesis by blast
qed

subsection \<open>Dirtying, flushing and the acknowledgment of the flush\<close>





subsection \<open>Flush tids\<close>


lemma tids_of_simps [simp]:
  "tids_of m [] = []"
  "tids_of m (x # xs) = tid (cf_mem m x) # tids_of m xs"
  "tids_of m (xs @ ys) = tids_of m xs @ tids_of m ys"
  by (simp_all add: tids_of_def)

lemma same_tids_refl [simp]: "same_tids m m"
  by (simp add: same_tids_def)






lemma tid_ordered_Nil [simp]: "tid_ordered m []"
  by (simp add: tid_ordered_def)






lemma same_tids_num [simp]:
  "same_tids m (m'\<lparr>num_cap_flushing := n\<rparr>) = same_tids m m'"
  by (simp add: same_tids_def)

lemma tid_ordered_num [simp]:
  "tid_ordered (m\<lparr>num_cap_flushing := n\<rparr>) xs = tid_ordered m xs"
  by (simp add: tid_ordered_def tids_of_def)





lemma tids_advance_refl [simp]: "tids_advance m m"
  by (simp add: tids_advance_def)

























subsection \<open>Issued caps are implemented caps\<close>

lemma sub_iff: "(a :: 32 word) AND NOT b = 0 \<longleftrightarrow> (\<forall>n. bit a n \<longrightarrow> bit b n)"
proof
  assume h: "a AND NOT b = 0"
  show "\<forall>n. bit a n \<longrightarrow> bit b n"
  proof (intro allI impI)
    fix n
    assume "bit a n"
    moreover have "\<not> bit (a AND NOT b) n" by (simp add: h)
    ultimately show "bit b n"
      by (auto simp: bit_and_iff bit_not_iff dest: bit_imp_le_length)
  qed
next
  assume "\<forall>n. bit a n \<longrightarrow> bit b n"
  then show "a AND NOT b = 0"
    by (intro bit_eqI) (auto simp: bit_and_iff bit_not_iff)
qed

lemma sub_or: "(a :: 32 word) AND NOT (b OR a) = 0"
  unfolding sub_iff by (simp add: bit_or_iff)

lemma sub_or2: "(a :: 32 word) AND NOT b = 0 \<Longrightarrow> (a OR c) AND NOT (b OR c) = 0"
  unfolding sub_iff by (auto simp: bit_or_iff)

lemma sub_prep: "(a :: 32 word) AND NOT b = 0 \<Longrightarrow> (a AND r) AND NOT (b AND ((a AND r) OR u)) = 0"
  unfolding sub_iff by (auto simp: bit_or_iff bit_and_iff)

lemma sub_drop: "(a :: 32 word) AND NOT b = 0 \<Longrightarrow> (a AND NOT d) AND NOT (b AND NOT d) = 0"
  unfolding sub_iff by (auto simp: bit_or_iff bit_and_iff bit_not_iff)

lemma sub_refl: "(a :: 32 word) AND NOT a = 0"
  unfolding sub_iff by simp

lemma store_cap_subset:
  "caps_subset ci \<Longrightarrow> cap_subset c \<Longrightarrow> caps_subset (store_cap ci c)"
  by (auto simp: caps_subset_def store_cap_def list_all_iff)

lemma get_cap_subset:
  "caps_subset ci \<Longrightarrow> get_cap_for_mds ci m = Some c \<Longrightarrow> cap_subset c"
  by (auto simp: caps_subset_def get_cap_for_mds_def list_all_iff find_Some_iff)

lemma insert_cap_subset:
  "insert_cap_node new cs = Inr cs' \<Longrightarrow> list_all cap_subset cs \<Longrightarrow> cap_subset new
     \<Longrightarrow> list_all cap_subset cs'"
  by (induction cs arbitrary: cs') (auto split: if_splits sum.splits)

lemma caps_subset_upd [simp]:
  "caps_subset (ci\<lparr>i_auth_cap := a\<rparr>) = caps_subset ci"
  "caps_subset (ci\<lparr>i_flushing_item := f\<rparr>) = caps_subset ci"
  "caps_subset (ci\<lparr>i_dirty_item := d\<rparr>) = caps_subset ci"
  "caps_subset (ci\<lparr>i_requested_max_size := r\<rparr>) = caps_subset ci"
  "caps_subset (ci\<lparr>i_wanted_max_size := w\<rparr>) = caps_subset ci"
  "caps_subset (ci\<lparr>i_max_size := x\<rparr>) = caps_subset ci"
  "caps_subset (ci\<lparr>i_ceph_flags := fl\<rparr>) = caps_subset ci"
  "caps_subset (ci\<lparr>i_rdcache_revoking := rv\<rparr>) = caps_subset ci"
  "caps_subset (ci\<lparr>i_nrpages := np\<rparr>) = caps_subset ci"
  "caps_subset (change_auth_cap_ses ci s) = caps_subset ci"
  by (simp_all add: caps_subset_def change_auth_cap_ses_def)

lemma insert_cap_subset':
  "insert_cap_node new (i_caps ci) = Inr cs' \<Longrightarrow> caps_subset ci \<Longrightarrow> cap_subset new
     \<Longrightarrow> caps_subset (ci\<lparr>i_caps := cs'\<rparr>)"
  using insert_cap_subset [of new "i_caps ci" cs'] by (simp add: caps_subset_def)

lemma cap_subset_iff:
  "cap_subset c \<longleftrightarrow> (\<forall>n. bit (issued c) n \<longrightarrow> bit (implemented c) n)"
  by (simp add: cap_subset_def sub_iff)

lemma add_cap_subset:
  assumes "caps_subset ci"
    and "ceph_add_cap mdsc ci session capid issued0 wanted seq0 mseq0 flags0 new_cap
           = Inr (mdsc', ci', new_cap')"
  shows "caps_subset ci'"
proof (cases "get_cap_for_mds ci session")
  case None
  with assms show ?thesis
    by (auto simp: ceph_add_cap_def Let_def cap_subset_iff bit_or_iff
        intro!: store_cap_subset insert_cap_subset'
        split: option.splits sum.splits if_splits)
next
  case (Some cap0)
  from get_cap_subset [OF assms(1) Some] have "cap_subset cap0" .
  with Some assms show ?thesis
    by (auto simp: ceph_add_cap_def Let_def cap_subset_iff bit_or_iff
        intro!: store_cap_subset 
        split: option.splits sum.splits if_splits)
qed

lemma i_caps_invalidate [simp]:
  "i_caps (fst (grant_invalidate ci cap n p)) = i_caps ci"
  by (simp add: grant_invalidate_def try_nonblocking_invalidate_def Let_def)

lemma i_caps_max_size [simp]:
  "i_caps (fst (grant_max_size ci a n x)) = i_caps ci"
  by (simp add: grant_max_size_def)

lemma stale_seq_subset: "cap_subset c \<Longrightarrow> cap_subset (fst (grant_stale_seq c gen g))"
  by (simp add: grant_stale_seq_def Let_def cap_subset_iff)

lemma grant_issue_subset: "cap_subset c \<Longrightarrow> cap_subset (grant_issue c n)"
  by (simp add: grant_issue_def cap_subset_iff bit_or_iff)

lemma grant_subset:
  assumes inv: "caps_subset ci"
  shows "handle_cap_grant mdsc ci session grant extra_issued wanted pages_left \<noteq> Inl BUG_ISSUED
    \<and> (\<forall>r. handle_cap_grant mdsc ci session grant extra_issued wanted pages_left = Inr r
          \<longrightarrow> caps_subset (gr_ci r))"
proof (cases "get_cap_for_mds ci session")
  case None
  then show ?thesis by (simp add: handle_cap_grant_def)
next
  case (Some cap0)
  obtain ci1 qi where 1: "grant_invalidate ci cap0 (m_caps grant) pages_left = (ci1, qi)"
    by (cases "grant_invalidate ci cap0 (m_caps grant) pages_left")
  obtain cap2 newcaps where
    2: "grant_stale_seq cap0 (s_cap_gen (sessions mdsc session)) grant = (cap2, newcaps)"
    by (cases "grant_stale_seq cap0 (s_cap_gen (sessions mdsc session)) grant")
  obtain ci2 rs where
    3: "grant_max_size ci1 (i_auth_cap ci1 = Some session) newcaps (m_max_size grant) = (ci2, rs)"
    by (cases "grant_max_size ci1 (i_auth_cap ci1 = Some session) newcaps (m_max_size grant)")
  from get_cap_subset [OF inv Some] have c0: "cap_subset cap0" .
  from stale_seq_subset [OF c0, of "s_cap_gen (sessions mdsc session)" grant] 2
  have c2: "cap_subset cap2" by simp
  from grant_issue_subset [OF c2] have c3: "cap_subset (grant_issue cap2 newcaps)" .
  then have nobug: "issued (grant_issue cap2 newcaps) AND NOT (implemented (grant_issue cap2 newcaps)) = 0"
    by (simp add: cap_subset_def)
  from c3 have c4: "cap_subset ((grant_issue cap2 newcaps)\<lparr>mds_wanted := 0\<rparr>)"
    by (simp add: cap_subset_iff)
  have i1: "i_caps ci1 = i_caps ci" using i_caps_invalidate [of ci cap0 "m_caps grant" pages_left] 1 by simp
  have i2: "i_caps ci2 = i_caps ci1"
    using i_caps_max_size [of ci1 "i_auth_cap ci1 = Some session" newcaps "m_max_size grant"] 3 by simp
  have s2: "caps_subset ci2" "caps_subset (ci2\<lparr>i_requested_max_size := 0\<rparr>)"
    using inv i1 i2 by (simp_all add: caps_subset_def)
  have s3: "caps_subset (if b then ci2\<lparr>i_requested_max_size := 0\<rparr> else ci2)" for b
    using s2 by simp
  have c5: "cap_subset (if b then (grant_issue cap2 newcaps)\<lparr>mds_wanted := 0\<rparr>
                        else grant_issue cap2 newcaps)" for b
    using c3 c4 by simp
  show ?thesis
    by (simp add: handle_cap_grant_def Some 1 2 3 Let_def nobug store_cap_subset [OF s3 c5]
        split del: if_split)
qed

lemma prep_subset:
  assumes "caps_subset ci" "prep_cap ci m used want retain0 = Inr ci'"
  shows "caps_subset ci'"
proof (cases "get_cap_for_mds ci m")
  case None
  with assms show ?thesis by (simp add: prep_cap_def)
next
  case (Some cap)
  from get_cap_subset [OF assms(1) Some] have "cap_subset cap" .
  with Some assms show ?thesis
    by (auto simp: prep_cap_def Let_def cap_subset_iff bit_or_iff bit_and_iff
        intro!: store_cap_subset split: if_splits)
qed

lemma release_subset:
  assumes "caps_subset ci"
  shows "caps_subset (fst (ceph_encode_inode_release mdsc jiffies ci m drop0 unless0 force wanted))"
proof (cases "get_cap_for_mds ci m")
  case None
  with assms show ?thesis by (simp add: ceph_encode_inode_release_def Let_def)
next
  case (Some cap)
  from get_cap_subset [OF assms(1) Some] have "cap_subset cap" .
  then have "cap_subset (cap\<lparr>issued := issued cap AND d,
                implemented := implemented cap AND d, mds_wanted := w\<rparr>)" for d w
    by (simp add: cap_subset_iff bit_and_iff)
  with Some assms show ?thesis
    by (auto simp: ceph_encode_inode_release_def Let_def intro!: store_cap_subset)
qed

lemma remove_subset:
  assumes "caps_subset ci" "ceph_remove_cap mdsc ci m q = Inr (mdsc', ci')"
  shows "caps_subset ci'"
  using assms
  by (auto simp: ceph_remove_cap_def Let_def caps_subset_def list_all_iff
      split: option.splits if_splits sum.splits)

lemma export_out_subset:
  "export_out mdsc ci nc = Inr (mdsc', ci') \<Longrightarrow> ci' = ci"
  by (auto simp: export_out_def split: option.splits sum.splits)

lemma remove_out_subset:
  "caps_subset ci \<Longrightarrow>
   (case ceph_remove_cap mdsc ci m q of Inl e \<Rightarrow> Inl e
    | Inr (mdsc1, ci1) \<Rightarrow> export_out mdsc1 ci1 nc) = Inr (mdsc', ci')
   \<Longrightarrow> caps_subset ci'"
  by (auto split: sum.splits dest!: export_out_subset dest: remove_subset)

lemma export_retry_subset:
  "caps_subset ci \<Longrightarrow>
   handle_cap_export_retry open_ok alloc_ok obj mdsc ci m ex_cap_id
       t_cap_id t_issue_seq t_mseq target tsession new_cap = Inr (mdsc', ci')
   \<Longrightarrow> caps_subset ci'"
proof (induction open_ok alloc_ok obj mdsc ci m ex_cap_id
       t_cap_id t_issue_seq t_mseq target tsession new_cap rule: handle_cap_export_retry.induct)
  case (1 open_ok alloc_ok obj mdsc ci m ex_cap_id t_cap_id t_issue_seq t_mseq target tsession new_cap)
  note inv = "1.prems"(1)
  note res = "1.prems"(2) [unfolded handle_cap_export_retry.simps
      [of open_ok alloc_ok obj mdsc ci m ex_cap_id t_cap_id t_issue_seq t_mseq target tsession new_cap]]
  show ?case
  proof (cases "get_cap_for_mds ci m")
    case None
    with res have "export_out mdsc ci new_cap = Inr (mdsc', ci')" by simp
    with inv show ?thesis by (auto dest: export_out_subset)
  next
    case (Some cap)
    from get_cap_subset [OF inv Some] have c: "cap_subset cap" .
    show ?thesis
    proof (cases "cap_id cap \<noteq> ex_cap_id")
      case True
      with res Some have "export_out mdsc ci new_cap = Inr (mdsc', ci')" by simp
      with inv show ?thesis by (auto dest: export_out_subset)
    next
      case idok: False
      show ?thesis
      proof (cases "target < 0")
        case True
        with res Some idok show ?thesis
          by (simp add: remove_out_subset [OF inv])
      next
        case tg: False
        show ?thesis
        proof (cases "get_cap_for_mds ci target")
          case tc: (Some tcap)
          from get_cap_subset [OF inv tc] have "cap_subset tcap" .
          with c have ct: "cap_subset
                                   (tcap\<lparr>cap_id := t_cap_id, seq := t_issue_seq - 1,
                                         issue_seq := t_issue_seq - 1,
                                         issued := issued tcap OR issued cap,
                                         implemented := implemented tcap OR issued cap\<rparr>)"
            by (auto simp: cap_subset_iff bit_or_iff)
          define ci1 where "ci1 = (if cap_id tcap = t_cap_id \<and> ceph_seq_cmp (seq tcap) t_issue_seq < 0 then
                      (let ci' = store_cap ci
                                   (tcap\<lparr>cap_id := t_cap_id, seq := t_issue_seq - 1,
                                         issue_seq := t_issue_seq - 1,
                                         issued := issued tcap OR issued cap,
                                         implemented := implemented tcap OR issued cap\<rparr>)
                       in if i_auth_cap ci' = Some m
                          then change_auth_cap_ses (ci'\<lparr>i_auth_cap := Some target\<rparr>) target
                          else ci')
                    else ci)"
          have i1: "caps_subset ci1"
            using store_cap_subset [OF inv ct] inv by (simp add: ci1_def Let_def)
          from res Some idok tg tc show ?thesis
            by (simp add: remove_out_subset [OF i1] flip: ci1_def)
        next
          case tn: None
          show ?thesis
          proof (cases tsession)
            case True
            with res Some idok tg tn obtain mdsc1 ci1 nc1 where
              add: "ceph_add_cap mdsc ci target t_cap_id (issued cap) 0 (t_issue_seq - 1) t_mseq
                     (if i_auth_cap ci = Some m then CEPH_CAP_FLAG_AUTH else 0) new_cap
                      = Inr (mdsc1, ci1, nc1)"
              and rest: "(case ceph_remove_cap mdsc1
                          (if i_cap_flush_list ci1 \<noteq> [] \<and> i_auth_cap ci1 = Some target
                                      then ci1\<lparr>i_flushing_item := Some target\<rparr> else ci1) m False of
                                 Inl e \<Rightarrow> Inl e
                               | Inr (mdsc3, ci3) \<Rightarrow> export_out mdsc3 ci3 nc1) = Inr (mdsc', ci')"
              by (simp add: Let_def split: sum.splits prod.splits)
            from add_cap_subset [OF inv add] have "caps_subset
                          (if i_cap_flush_list ci1 \<noteq> [] \<and> i_auth_cap ci1 = Some target
                                      then ci1\<lparr>i_flushing_item := Some target\<rparr> else ci1)"
              by simp
            from remove_out_subset [OF this rest] show ?thesis .
          next
            case ts: False
            show ?thesis
            proof (cases open_ok)
              case True
              with res Some idok tg tn ts obtain mdsc1 ctx got where
                g: "ceph_get_cap alloc_ok mdsc None = Inr (mdsc1, ctx, got)"
                and r: "handle_cap_export_retry open_ok alloc_ok obj mdsc1 ci m ex_cap_id
                          t_cap_id t_issue_seq t_mseq target True
                          (if got then Some obj else None) = Inr (mdsc', ci')"
                by (simp split: sum.splits prod.splits)
              from "1.IH"(1) [OF Some idok tg tn ts True g refl refl inv r] show ?thesis .
            next
              case False
              with res Some idok tg tn ts have
                r: "handle_cap_export_retry open_ok alloc_ok obj mdsc ci m ex_cap_id
                     t_cap_id t_issue_seq t_mseq (- 1) False None = Inr (mdsc', ci')"
                by simp
              from "1.IH"(2) [OF Some idok tg tn ts False inv r] show ?thesis .
            qed
          qed
        qed
      qed
    qed
  qed
qed

lemma import_subset:
  assumes inv: "caps_subset ci"
    and res: "handle_cap_import kmem obj mdsc jiffies ci m im ph = Some (Inr (mdsc', ci', old))"
  shows "caps_subset ci'"
  using res
  by (auto simp: handle_cap_import_def Let_def
      split: option.splits sum.splits prod.splits if_splits
      dest!: add_cap_subset [OF inv] dest: remove_subset)

lemma ceph_put_cap_not_issued: "ceph_put_cap m \<noteq> Inl BUG_ISSUED"
  by (simp add: ceph_put_cap_def Let_def)

lemma ceph_get_cap_not_issued: "ceph_get_cap a m c \<noteq> Inl BUG_ISSUED"
  by (simp add: ceph_get_cap_def Let_def split: option.splits)

lemma insert_not_issued: "insert_cap_node new cs \<noteq> Inl BUG_ISSUED"
  by (induction cs) (auto split: sum.splits)

lemma add_cap_not_issued:
  "ceph_add_cap mdsc ci session capid issued0 wanted seq0 mseq0 flags0 new_cap \<noteq> Inl BUG_ISSUED"
  using insert_not_issued
  by (auto simp: ceph_add_cap_def Let_def split: option.splits sum.splits prod.splits)

lemma remove_not_issued: "ceph_remove_cap mdsc ci m q \<noteq> Inl BUG_ISSUED"
  using ceph_put_cap_not_issued
  by (auto simp: ceph_remove_cap_def Let_def split: option.splits sum.splits)

lemma export_out_not_issued: "export_out mdsc ci nc \<noteq> Inl BUG_ISSUED"
  using ceph_put_cap_not_issued
  by (auto simp: export_out_def split: option.splits sum.splits)

lemma bind_issuedD:
  "(case x of Inl e \<Rightarrow> Inl e | Inr y \<Rightarrow> f y) = Inl BUG_ISSUED
     \<Longrightarrow> x = Inl BUG_ISSUED \<or> (\<exists>y. x = Inr y \<and> f y = Inl BUG_ISSUED)"
  by (cases x) auto

lemma export_retry_not_issued_session:
  "handle_cap_export_retry open_ok alloc_ok obj mdsc ci m ex_cap_id
       t_cap_id t_issue_seq t_mseq target True new_cap \<noteq> Inl BUG_ISSUED"
  by (subst handle_cap_export_retry.simps)
     (auto simp: Let_def export_out_not_issued remove_not_issued add_cap_not_issued
        split: option.splits prod.splits if_splits dest!: bind_issuedD)

lemma export_retry_not_issued_nopeer:
  "handle_cap_export_retry open_ok alloc_ok obj mdsc ci m ex_cap_id
       t_cap_id t_issue_seq t_mseq (- 1) tsession new_cap \<noteq> Inl BUG_ISSUED"
  by (subst handle_cap_export_retry.simps)
     (auto simp: Let_def export_out_not_issued remove_not_issued
        split: option.splits prod.splits if_splits dest!: bind_issuedD)

lemma export_retry_not_issued:
  "handle_cap_export_retry open_ok alloc_ok obj mdsc ci m ex_cap_id
       t_cap_id t_issue_seq t_mseq target tsession new_cap \<noteq> Inl BUG_ISSUED"
  by (subst handle_cap_export_retry.simps)
     (auto simp: Let_def export_out_not_issued remove_not_issued add_cap_not_issued
        ceph_get_cap_not_issued export_retry_not_issued_session export_retry_not_issued_nopeer
        split: option.splits prod.splits if_splits dest!: bind_issuedD)

lemma import_not_issued:
  "handle_cap_import kmem obj mdsc jiffies ci m im ph \<noteq> Some (Inl BUG_ISSUED)"
proof -
  have g: "import_get_cap kmem mdsc \<noteq> Some (Inl BUG_ISSUED)" for mdsc
    using ceph_get_cap_not_issued
    by (induction kmem arbitrary: mdsc) (auto split: sum.splits prod.splits)
  show ?thesis
    using g add_cap_not_issued remove_not_issued
    by (auto simp: handle_cap_import_def Let_def
        split: option.splits sum.splits prod.splits if_splits)
qed

lemma prep_not_issued: "prep_cap ci m used want retain0 \<noteq> Inl BUG_ISSUED"
  by (simp add: prep_cap_def Let_def split: option.splits)

lemma cap_step_ok: "caps_subset ci \<Longrightarrow> subset_ok (cap_step ev (mdsc, ci))"
proof (cases ev)
  case (Add_cap session capid iss wanted sq msq flags new_cap)
  then show "caps_subset ci \<Longrightarrow> ?thesis"
    using add_cap_not_issued [of mdsc ci session capid iss wanted sq msq flags new_cap]
    by (auto simp: subset_ok_def split: sum.splits dest: add_cap_subset)
next
  case (Grant session grant extra_issued wanted pages_left)
  then show "caps_subset ci \<Longrightarrow> ?thesis"
    using grant_subset [of ci mdsc session grant extra_issued wanted pages_left]
    by (auto simp: subset_ok_def split: sum.splits)
next
  case (Export open_ok alloc_ok obj m ex ph)
  then show "caps_subset ci \<Longrightarrow> ?thesis"
    using export_retry_not_issued
    by (auto simp: subset_ok_def handle_cap_export_def split: sum.splits option.splits
        dest: export_retry_subset)
next
  case (Import kmem obj jiffies m im ph wanted pages_left)
  show "caps_subset ci \<Longrightarrow> ?thesis"
  proof -
    assume inv: "caps_subset ci"
    show ?thesis
    proof (cases "handle_cap_import kmem obj mdsc jiffies ci m im ph")
      case None
      with Import show ?thesis by (simp add: subset_ok_def)
    next
      case (Some r)
      show ?thesis
      proof (cases r)
        case (Inl e)
        with Some Import import_not_issued [of kmem obj mdsc jiffies ci m im ph]
        show ?thesis by (simp add: subset_ok_def)
      next
        case (Inr t)
        obtain mdsc1 ci1 old where t: "t = (mdsc1, ci1, old)" by (cases t)
        from import_subset [OF inv Some [unfolded Inr t]] have "caps_subset ci1" .
        from grant_subset [OF this, of mdsc1 m im old wanted pages_left] Some Inr t Import
        show ?thesis by (auto simp: subset_ok_def split: sum.splits)
      qed
    qed
  qed
next
  case (Prep m used want retain)
  then show "caps_subset ci \<Longrightarrow> ?thesis"
    using prep_not_issued [of ci m used want retain]
    by (auto simp: subset_ok_def split: sum.splits dest: prep_subset)
next
  case (Release jiffies m drop0 unless0 force wanted)
  then show "caps_subset ci \<Longrightarrow> ?thesis"
    by (simp add: subset_ok_def release_subset)
next
  case (Remove m q)
  then show "caps_subset ci \<Longrightarrow> ?thesis"
    using remove_not_issued [of mdsc ci m q]
    by (auto simp: subset_ok_def split: sum.splits dest: remove_subset)
next
  case (Elsewhere mdsc')
  then show "caps_subset ci \<Longrightarrow> ?thesis"
    by (simp add: subset_ok_def)
qed

lemma cap_run_ok: "caps_subset (snd st) \<Longrightarrow> subset_ok (cap_run evs st)"
proof (induction evs arbitrary: st)
  case Nil
  then show ?case by (cases st) (simp add: subset_ok_def)
next
  case (Cons ev evs)
  obtain mdsc ci where st: "st = (mdsc, ci)" by (cases st)
  with Cons.prems have inv: "caps_subset ci" by simp
  show ?case
  proof (cases "cap_step ev (mdsc, ci)")
    case None
    then show ?thesis by (simp add: st subset_ok_def)
  next
    case (Some r)
    show ?thesis
    proof (cases r)
      case (Inl e)
      with Some cap_step_ok [OF inv, of ev mdsc] show ?thesis
        by (simp add: st subset_ok_def)
    next
      case (Inr st')
      with Some cap_step_ok [OF inv, of ev mdsc] have "caps_subset (snd st')"
        by (cases st') (simp add: subset_ok_def)
      from Cons.IH [OF this] Some Inr show ?thesis by (simp add: st)
    qed
  qed
qed

text \<open>
  Claim C1.  When every cap of an inode has its issued bits among its implemented
  bits, this is so again after every run of mutations of the capability state:
  adding a cap (\<^verbatim>\<open>ceph_add_cap\<close>), applying a grant or a revoke
  (\<^verbatim>\<open>handle_cap_grant\<close>), handling an export or an import, the reconciliation
  preparing a cap for its message (\<^verbatim>\<open>__prep_cap\<close>), the release of caps with a
  request, the removal of a cap, with anything happening to the sessions and the
  pool in between; and the \<^verbatim>\<open>BUG_ON(cap->issued & ~cap->implemented)\<close> of
  \<^verbatim>\<open>handle_cap_grant\<close> never fires.  An inode without caps satisfies the
  invariant.
\<close>

theorem issued_subset_implemented:
  assumes "caps_subset ci"
  shows "(case cap_run evs (mdsc, ci) of
            None \<Rightarrow> True
          | Some (Inl e) \<Rightarrow> e \<noteq> BUG_ISSUED
          | Some (Inr (mdsc', ci')) \<Rightarrow>
              list_all (\<lambda>c. issued c AND NOT (implemented c) = 0) (i_caps ci'))
         \<and> caps_subset (ci\<lparr>i_caps := []\<rparr>)"
proof -
  from assms have "caps_subset (snd (mdsc, ci))" by simp
  from cap_run_ok [OF this, of evs] show ?thesis
    by (simp add: subset_ok_def caps_subset_def cap_subset_def [abs_def]
        split: option.splits sum.splits prod.splits)
qed

text \<open>
  MDS 1 grants \<^verbatim>\<open>pin\<close>, \<^verbatim>\<open>FILE_SHARED\<close> and \<^verbatim>\<open>FILE_RD\<close> to an inode without
  caps, then revokes \<^verbatim>\<open>FILE_RD\<close>: the cap has \<open>0x101\<close> issued and still \<open>0x901\<close>
  implemented.
\<close>

theorem issued_subset_implemented_witness:
  "caps_subset inode_init
   \<and> (\<exists>mdsc' ci'.
        cap_run [Add_cap 1 100 (CEPH_CAP_PIN OR CEPH_CAP_FILE_SHARED OR CEPH_CAP_FILE_RD) 0 1 0
                   CEPH_CAP_FLAG_AUTH (Some cap_object),
                 Grant 1 revoke_rd 0 0 0] (mdsc_init, inode_init) = Some (Inr (mdsc', ci'))
      \<and> map issued (i_caps ci') = [0x101] \<and> map implemented (i_caps ci') = [0x901]
      \<and> list_all (\<lambda>c. issued c AND NOT (implemented c) = 0) (i_caps ci'))"
proof -
  have inv: "caps_subset inode_init"
    by (simp add: caps_subset_def inode_init_def)
  obtain mdsc' ci' where
    run: "cap_run [Add_cap 1 100 (CEPH_CAP_PIN OR CEPH_CAP_FILE_SHARED OR CEPH_CAP_FILE_RD) 0 1 0
                     CEPH_CAP_FLAG_AUTH (Some cap_object),
                   Grant 1 revoke_rd 0 0 0] (mdsc_init, inode_init) = Some (Inr (mdsc', ci'))"
    and bits: "map issued (i_caps ci') = [0x101]" "map implemented (i_caps ci') = [0x901]"
    by (simp add: ceph_add_cap_def get_cap_for_mds_def inode_init_def mdsc_init_def
        cap_object_def Let_def auth_cap_def store_cap_def ceph_seq_cmp_def handle_cap_grant_def
        revoke_rd_def grant_invalidate_def grant_stale_seq_def grant_max_size_def
        grant_issue_def try_nonblocking_invalidate_def ceph_caps_used_def
        ceph_caps_revoking_other_def CEPH_CAP_PIN_def CEPH_CAP_FILE_SHARED_def
        CEPH_CAP_FILE_RD_def CEPH_CAP_FLAG_AUTH_def CEPH_CAP_OP_REVOKE_def
        CEPH_CAP_OP_IMPORT_def CEPH_CAP_FILE_CACHE_def CEPH_CAP_FILE_LAZYIO_def
        CEPH_CAP_ANY_FILE_WR_def CEPH_CAP_FILE_WR_def CEPH_CAP_FILE_BUFFER_def
        CEPH_CAP_FILE_EXCL_def)
  have sub: "list_all (\<lambda>c. issued c AND NOT (implemented c) = 0) (i_caps ci')"
    using issued_subset_implemented [OF inv,
        of "[Add_cap 1 100 (CEPH_CAP_PIN OR CEPH_CAP_FILE_SHARED OR CEPH_CAP_FILE_RD) 0 1 0
               CEPH_CAP_FLAG_AUTH (Some cap_object), Grant 1 revoke_rd 0 0 0]" mdsc_init]
    unfolding run by simp
  show ?thesis
    apply (rule conjI [OF inv])
    apply (rule exI [of _ mdsc'])
    apply (rule exI [of _ ci'])
    apply (intro conjI)
       apply (rule run)
      apply (rule bits(1))
     apply (rule bits(2))
    apply (rule sub)
    done
qed

subsection \<open>Grants with an old sequence number\<close>

lemma get_cap_mds: "get_cap_for_mds ci m = Some c \<Longrightarrow> mds c = m"
  by (auto simp: get_cap_for_mds_def find_Some_iff)

lemma find_map_replace:
  "find (\<lambda>c. mds c = m) cs = Some c0 \<Longrightarrow> mds c = m
     \<Longrightarrow> find (\<lambda>c. mds c = m) (map (\<lambda>x. if mds x = m then c else x) cs) = Some c"
  by (induction cs) (auto split: if_splits)

lemma get_store_cap:
  "get_cap_for_mds ci m = Some c0 \<Longrightarrow> mds c = m \<Longrightarrow> get_cap_for_mds (store_cap ci c) m = Some c"
  using find_map_replace [of m "i_caps ci" c0 c]
  by (simp add: get_cap_for_mds_def store_cap_def)

lemma get_store_cap_simp:
  "mds c = m \<Longrightarrow> get_cap_for_mds ci m \<noteq> None
     \<Longrightarrow> get_cap_for_mds (store_cap ci c) m = Some c"
  using get_store_cap [of ci m _ c] by auto

lemma get_cap_frame [simp]:
  "get_cap_for_mds (ci\<lparr>i_auth_cap := a\<rparr>) m = get_cap_for_mds ci m"
  "get_cap_for_mds (ci\<lparr>i_requested_max_size := r\<rparr>) m = get_cap_for_mds ci m"
  "get_cap_for_mds (change_auth_cap_ses ci s) m = get_cap_for_mds ci m"
  by (simp_all add: get_cap_for_mds_def change_auth_cap_ses_def)

lemma get_cap_i_caps: "i_caps ci' = i_caps ci \<Longrightarrow> get_cap_for_mds ci' m = get_cap_for_mds ci m"
  by (simp add: get_cap_for_mds_def)

lemma grant_issue_issued: "issued (grant_issue c n) = n"
  by (auto simp: grant_issue_def)

lemma grant_issue_frame:
  "mds (grant_issue c n) = mds c" "seq (grant_issue c n) = seq c"
  by (auto simp: grant_issue_def)

lemma grant_old_seq:
  assumes cap: "get_cap_for_mds ci session = Some cap"
    and inv: "caps_subset ci"
    and old: "ceph_seq_cmp (m_seq grant) (seq cap) \<le> 0"
  shows "\<exists>r cap'. handle_cap_grant mdsc ci session grant extra_issued wanted pages_left = Inr r
     \<and> get_cap_for_mds (gr_ci r) session = Some cap'
     \<and> issued cap' = m_caps grant OR
          (if cap_gen cap < s_cap_gen (sessions mdsc session) then CEPH_CAP_PIN else issued cap)
     \<and> seq cap' = seq cap"
proof -
  let ?gen = "s_cap_gen (sessions mdsc session)"
  obtain ci1 qi where 1: "grant_invalidate ci cap (m_caps grant) pages_left = (ci1, qi)"
    by (cases "grant_invalidate ci cap (m_caps grant) pages_left")
  obtain cap2 newcaps where 2: "grant_stale_seq cap ?gen grant = (cap2, newcaps)"
    by (cases "grant_stale_seq cap ?gen grant")
  obtain ci2 rs where
    3: "grant_max_size ci1 (i_auth_cap ci1 = Some session) newcaps (m_max_size grant) = (ci2, rs)"
    by (cases "grant_max_size ci1 (i_auth_cap ci1 = Some session) newcaps (m_max_size grant)")
  from 2 old have nc: "newcaps = m_caps grant OR
          (if cap_gen cap < ?gen then CEPH_CAP_PIN else issued cap)"
    and m2: "mds cap2 = mds cap" and s2: "seq cap2 = seq cap"
    by (auto simp: grant_stale_seq_def Let_def split: if_splits)
  from get_cap_subset [OF inv cap] have c0: "cap_subset cap" .
  from stale_seq_subset [OF c0, of ?gen grant] 2 have c2: "cap_subset cap2" by simp
  from grant_issue_subset [OF c2] have
    nobug: "issued (grant_issue cap2 newcaps) AND NOT (implemented (grant_issue cap2 newcaps)) = 0"
    by (simp add: cap_subset_def)
  have i1: "i_caps ci1 = i_caps ci"
    using i_caps_invalidate [of ci cap "m_caps grant" pages_left] 1 by simp
  have i2: "i_caps ci2 = i_caps ci1"
    using i_caps_max_size [of ci1 "i_auth_cap ci1 = Some session" newcaps "m_max_size grant"] 3
    by simp
  have g2: "get_cap_for_mds (if b then ci2\<lparr>i_requested_max_size := 0\<rparr> else ci2) session = Some cap" for b
    using cap i1 i2 by (simp add: get_cap_for_mds_def)
  define c4 where "c4 b = (if b then (grant_issue cap2 newcaps)\<lparr>mds_wanted := 0\<rparr>
                        else grant_issue cap2 newcaps)" for b
  have m4: "mds (c4 b) = session" "issued (c4 b) = newcaps" "seq (c4 b) = seq cap" for b
    using get_cap_mds [OF cap] m2 s2 by (simp_all add: c4_def grant_issue_issued grant_issue_frame)
  note st = get_store_cap [OF g2 m4(1)]
  show ?thesis
    by (simp add: handle_cap_grant_def cap 1 2 3 Let_def nobug st [unfolded c4_def] 
           m4 [unfolded c4_def] nc [symmetric]
        split del: if_split)
qed

lemma add_cap_old_seq:
  assumes cap: "get_cap_for_mds ci session = Some cap"
    and old: "ceph_seq_cmp sq (seq cap) \<le> 0"
  shows "\<exists>mdsc' ci' nc' cap'.
       ceph_add_cap mdsc ci session capid iss wanted sq msq flags nc = Inr (mdsc', ci', nc')
     \<and> get_cap_for_mds ci' session = Some cap'
     \<and> issued cap' = iss OR
          (if cap_gen cap < s_cap_gen (sessions mdsc session) then CEPH_CAP_PIN else issued cap)
     \<and> seq cap' = seq cap"
proof -
  let ?gen = "s_cap_gen (sessions mdsc session)"
  define cap1 where "cap1 = (if cap_gen cap < ?gen
                             then cap\<lparr>issued := CEPH_CAP_PIN, implemented := CEPH_CAP_PIN\<rparr>
                             else cap)"
  have m1: "mds cap1 = session" "seq cap1 = seq cap"
    "issued cap1 = (if cap_gen cap < ?gen then CEPH_CAP_PIN else issued cap)"
    using get_cap_mds [OF cap] by (simp_all add: cap1_def)
  note g1 = get_store_cap [OF cap m1(1)]
  have g2: "get_cap_for_mds (if b then (if b' then change_auth_cap_ses (store_cap ci cap1) s
                                         else store_cap ci cap1)\<lparr>i_auth_cap := a\<rparr>
                             else store_cap ci cap1) session = Some cap1" for b b' s a
    using g1 by simp
  show ?thesis
    using cap old m1 g1
    by (auto simp: ceph_add_cap_def Let_def get_store_cap_simp simp flip: cap1_def
        split: option.splits)
qed


lemma sub_or_nf: "(a :: 32 word) AND NOT b AND NOT a = 0"
  by (simp add: bit_eq_iff bit_and_iff bit_not_iff)

lemma revoking_other_i_caps:
  "i_caps ci' = i_caps ci \<Longrightarrow> ceph_caps_revoking_other ci' m n = ceph_caps_revoking_other ci m n"
  by (simp add: ceph_caps_revoking_other_def)

lemma i_auth_invalidate:
  "i_auth_cap (fst (grant_invalidate ci cap n p)) = i_auth_cap ci"
  by (auto simp: grant_invalidate_def try_nonblocking_invalidate_def Let_def
      split: prod.splits if_splits)

lemma i_auth_max_size:
  "i_auth_cap (fst (grant_max_size ci a n s)) = i_auth_cap ci"
  by (auto simp: grant_max_size_def)

lemma grant_old_seq_returns:
  assumes cap: "get_cap_for_mds ci session = Some cap"
    and inv: "caps_subset ci"
    and old: "ceph_seq_cmp (m_seq grant) (seq cap) \<le> 0"
    and current: "\<not> cap_gen cap < s_cap_gen (sessions mdsc session)"
    and op: "m_op grant \<noteq> CEPH_CAP_OP_REVOKE" "m_op grant \<noteq> CEPH_CAP_OP_IMPORT"
    and other: "\<not> (i_auth_cap ci = Some session
                  \<and> ceph_caps_revoking_other ci session (m_caps grant OR issued cap))"
  shows "\<exists>r. handle_cap_grant mdsc ci session grant extra_issued wanted pages_left = Inr r
     \<and> gr_check_caps r = 0 \<and> \<not> gr_kick_flushing r"
proof -
  let ?gen = "s_cap_gen (sessions mdsc session)"
  obtain ci1 qi where 1: "grant_invalidate ci cap (m_caps grant) pages_left = (ci1, qi)"
    by (cases "grant_invalidate ci cap (m_caps grant) pages_left")
  obtain cap2 newcaps where 2: "grant_stale_seq cap ?gen grant = (cap2, newcaps)"
    by (cases "grant_stale_seq cap ?gen grant")
  obtain ci2 rs where
    3: "grant_max_size ci1 (i_auth_cap ci1 = Some session) newcaps (m_max_size grant) = (ci2, rs)"
    by (cases "grant_max_size ci1 (i_auth_cap ci1 = Some session) newcaps (m_max_size grant)")
  from 2 old current have nc: "newcaps = m_caps grant OR issued cap"
    and i2: "issued cap2 = issued cap"
    by (auto simp: grant_stale_seq_def Let_def split: if_splits)
  have rev0: "issued cap2 AND NOT newcaps = 0"
    unfolding nc i2 by (rule sub_or)
  from get_cap_subset [OF inv cap] have c0: "cap_subset cap" .
  from stale_seq_subset [OF c0, of ?gen grant] 2 have c2: "cap_subset cap2" by simp
  from grant_issue_subset [OF c2] have
    nobug: "issued (grant_issue cap2 newcaps) AND NOT (implemented (grant_issue cap2 newcaps)) = 0"
    by (simp add: cap_subset_def)
  have ic1: "i_caps ci1 = i_caps ci"
    using i_caps_invalidate [of ci cap "m_caps grant" pages_left] 1 by simp
  have ic2: "i_caps ci2 = i_caps ci1"
    using i_caps_max_size [of ci1 "i_auth_cap ci1 = Some session" newcaps "m_max_size grant"] 3
    by simp
  have a1: "i_auth_cap ci1 = i_auth_cap ci"
    using i_auth_invalidate [of ci cap "m_caps grant" pages_left] 1 by simp
  have ro: "ceph_caps_revoking_other ci2 session n
            = ceph_caps_revoking_other ci session n" for n
    by (rule revoking_other_i_caps) (simp add: ic1 ic2)
  from other have no2: "\<not> (i_auth_cap ci1 = Some session
                  \<and> ceph_caps_revoking_other ci2 session newcaps)"
    by (simp add: a1 ro nc)
  show ?thesis
    using op no2 current
    apply (simp add: handle_cap_grant_def cap 1 2 3 Let_def nobug rev0
        split del: if_split)
    apply auto
    done
qed

text \<open>
  Claim C6.  Take a cap whose generation does not lag the generation of its session
  and a message whose sequence number is not after the one recorded in the cap, in
  the wrapping comparison of the code (\<^verbatim>\<open>ceph_seq_cmp(seq, cap->seq) <= 0\<close>, the
  difference of the two numbers read as a signed 32-bit number).  When
  \<^verbatim>\<open>handle_cap_grant\<close> applies such a message that is neither a revocation
  (\<^verbatim>\<open>CEPH_CAP_OP_REVOKE\<close>) nor an import, with no other MDS revoking the bits the auth
  cap is granted, it returns without calling \<^verbatim>\<open>ceph_check_caps\<close> or
  \<^verbatim>\<open>ceph_kick_flushing_inode_caps\<close>, and it leaves the cap with the bits of the
  message together with every bit issued before and with its sequence number
  unchanged.  \<^verbatim>\<open>ceph_add_cap\<close> does the same for any such message.  So no issued
  bit is lost.
\<close>

theorem old_grant_keeps_issued:
  assumes cap: "get_cap_for_mds ci session = Some cap"
    and inv: "caps_subset ci"
    and current: "\<not> cap_gen cap < s_cap_gen (sessions mdsc session)"
    and old_grant: "ceph_seq_cmp (m_seq grant) (seq cap) \<le> 0"
    and op: "m_op grant \<noteq> CEPH_CAP_OP_REVOKE" "m_op grant \<noteq> CEPH_CAP_OP_IMPORT"
    and other: "\<not> (i_auth_cap ci = Some session
                  \<and> ceph_caps_revoking_other ci session (m_caps grant OR issued cap))"
    and old_add: "ceph_seq_cmp sq (seq cap) \<le> 0"
  shows "(\<exists>r cap'. handle_cap_grant mdsc ci session grant extra_issued wanted pages_left = Inr r
            \<and> gr_check_caps r = 0 \<and> \<not> gr_kick_flushing r
            \<and> get_cap_for_mds (gr_ci r) session = Some cap'
            \<and> issued cap' = m_caps grant OR issued cap
            \<and> issued cap AND NOT (issued cap') = 0 \<and> seq cap' = seq cap)
       \<and> (\<exists>mdsc' ci' nc' cap'.
            ceph_add_cap mdsc ci session capid iss wanted' sq msq flags nc = Inr (mdsc', ci', nc')
            \<and> get_cap_for_mds ci' session = Some cap'
            \<and> issued cap' = iss OR issued cap
            \<and> issued cap AND NOT (issued cap') = 0 \<and> seq cap' = seq cap)"
proof (rule conjI)
  from grant_old_seq [OF cap inv old_grant, of mdsc extra_issued wanted pages_left]
    grant_old_seq_returns [OF cap inv old_grant current op other,
      of extra_issued wanted pages_left] current
  show "\<exists>r cap'. handle_cap_grant mdsc ci session grant extra_issued wanted pages_left = Inr r
            \<and> gr_check_caps r = 0 \<and> \<not> gr_kick_flushing r
            \<and> get_cap_for_mds (gr_ci r) session = Some cap'
            \<and> issued cap' = m_caps grant OR issued cap
            \<and> issued cap AND NOT (issued cap') = 0 \<and> seq cap' = seq cap"
    by (auto simp: sub_or_nf)
next
  from add_cap_old_seq [OF cap old_add, of mdsc capid iss wanted' msq flags nc] current
  show "\<exists>mdsc' ci' nc' cap'.
            ceph_add_cap mdsc ci session capid iss wanted' sq msq flags nc = Inr (mdsc', ci', nc')
            \<and> get_cap_for_mds ci' session = Some cap'
            \<and> issued cap' = iss OR issued cap
            \<and> issued cap AND NOT (issued cap') = 0 \<and> seq cap' = seq cap"
    by (auto simp: sub_or_nf)
qed

lemma seq_cmp_3_5: "ceph_seq_cmp 3 5 \<le> 0"
  by (simp add: ceph_seq_cmp_def)

text \<open>
  A grant (\<^verbatim>\<open>CEPH_CAP_OP_GRANT\<close>) of \<^verbatim>\<open>pin\<close> alone with sequence number 3 to the
  only cap of an inode, which is of the current generation and has \<^verbatim>\<open>pin\<close> and
  \<^verbatim>\<open>FILE_RD\<close> at sequence number 5, leaves both bits issued.
\<close>

theorem old_grant_keeps_issued_witness:
  "(\<exists>r cap'. handle_cap_grant mdsc_init inode_rd 0 grant_old 0 0 0 = Inr r
            \<and> gr_check_caps r = 0 \<and> \<not> gr_kick_flushing r
            \<and> get_cap_for_mds (gr_ci r) 0 = Some cap'
            \<and> issued cap' = m_caps grant_old OR issued cap_rd
            \<and> issued cap_rd AND NOT (issued cap') = 0 \<and> seq cap' = seq cap_rd)
       \<and> (\<exists>mdsc' ci' nc' cap'.
            ceph_add_cap mdsc_init inode_rd 0 100 CEPH_CAP_PIN 0 3 0 0 None = Inr (mdsc', ci', nc')
            \<and> get_cap_for_mds ci' 0 = Some cap'
            \<and> issued cap' = CEPH_CAP_PIN OR issued cap_rd
            \<and> issued cap_rd AND NOT (issued cap') = 0 \<and> seq cap' = seq cap_rd)"
proof -
  have cap: "get_cap_for_mds inode_rd 0 = Some cap_rd"
    by (simp add: get_cap_for_mds_def inode_rd_def cap_rd_def)
  have inv: "caps_subset inode_rd"
    by (simp add: caps_subset_def cap_subset_def inode_rd_def cap_rd_def
        CEPH_CAP_PIN_def CEPH_CAP_FILE_RD_def)
  have cur: "\<not> cap_gen cap_rd < s_cap_gen (sessions mdsc_init 0)"
    by (simp add: cap_rd_def mdsc_init_def)
  have old: "ceph_seq_cmp (m_seq grant_old) (seq cap_rd) \<le> 0"
    and old': "ceph_seq_cmp 3 (seq cap_rd) \<le> 0"
    by (simp_all add: grant_old_def cap_rd_def seq_cmp_3_5)
  have op: "m_op grant_old \<noteq> CEPH_CAP_OP_REVOKE" "m_op grant_old \<noteq> CEPH_CAP_OP_IMPORT"
    by (simp_all add: grant_old_def CEPH_CAP_OP_GRANT_def CEPH_CAP_OP_REVOKE_def
        CEPH_CAP_OP_IMPORT_def)
  have other: "\<not> (i_auth_cap inode_rd = Some 0
      \<and> ceph_caps_revoking_other inode_rd 0 (m_caps grant_old OR issued cap_rd))"
    by (simp add: ceph_caps_revoking_other_def inode_rd_def cap_rd_def)
  show ?thesis
    by (rule old_grant_keeps_issued [OF cap inv cur old op other old'])
qed

text \<open>
  The same grant to the same cap one generation behind its session: both functions first
  reset a stale cap to \<^verbatim>\<open>pin\<close>, so \<^verbatim>\<open>FILE_RD\<close> (bit 11) is issued before the grant
  and no longer after it; \<^verbatim>\<open>handle_cap_grant\<close> returns without a call of
  \<^verbatim>\<open>ceph_check_caps\<close>.
\<close>

theorem old_grant_stale_regresses:
  "\<exists>r cap'. get_cap_for_mds inode_rd_stale 0 = Some (cap_rd\<lparr>cap_gen := 0\<rparr>)
     \<and> ceph_seq_cmp (m_seq grant_old) (seq (cap_rd\<lparr>cap_gen := 0\<rparr>)) \<le> 0
     \<and> issued (cap_rd\<lparr>cap_gen := 0\<rparr>) = CEPH_CAP_PIN OR CEPH_CAP_FILE_RD
     \<and> handle_cap_grant mdsc_init inode_rd_stale 0 grant_old 0 0 0 = Inr r
     \<and> gr_check_caps r = 0 \<and> \<not> gr_kick_flushing r
     \<and> get_cap_for_mds (gr_ci r) 0 = Some cap'
     \<and> issued cap' = CEPH_CAP_PIN
     \<and> bit (issued (cap_rd\<lparr>cap_gen := 0\<rparr>)) 11 \<and> \<not> bit (issued cap') 11"
proof -
  let ?c = "cap_rd\<lparr>cap_gen := 0\<rparr>"
  have cap: "get_cap_for_mds inode_rd_stale 0 = Some ?c"
    by (simp add: get_cap_for_mds_def inode_rd_stale_def cap_rd_def)
  have inv: "caps_subset inode_rd_stale"
    by (simp add: caps_subset_def cap_subset_def inode_rd_stale_def cap_rd_def
        CEPH_CAP_PIN_def CEPH_CAP_FILE_RD_def)
  have old: "ceph_seq_cmp (m_seq grant_old) (seq ?c) \<le> 0"
    by (simp add: grant_old_def cap_rd_def seq_cmp_3_5)
  have stale: "cap_gen ?c < s_cap_gen (sessions mdsc_init 0)"
    by (simp add: mdsc_init_def)
  have iss: "issued ?c = CEPH_CAP_PIN OR CEPH_CAP_FILE_RD"
    by (simp add: cap_rd_def)
  have pin: "m_caps grant_old OR CEPH_CAP_PIN = CEPH_CAP_PIN"
    by (simp add: grant_old_def)
  have b1: "bit (CEPH_CAP_PIN OR CEPH_CAP_FILE_RD) 11"
    by (simp add: CEPH_CAP_PIN_def CEPH_CAP_FILE_RD_def bit_or_iff)
  have b2: "\<not> bit CEPH_CAP_PIN 11"
    by (simp add: CEPH_CAP_PIN_def)
  from grant_old_seq [OF cap inv old, of mdsc_init 0 0 0] stale pin
  obtain r cap' where r: "handle_cap_grant mdsc_init inode_rd_stale 0 grant_old 0 0 0 = Inr r"
    "get_cap_for_mds (gr_ci r) 0 = Some cap'" "issued cap' = CEPH_CAP_PIN"
    by auto
  have "\<exists>r. handle_cap_grant mdsc_init inode_rd_stale 0 grant_old 0 0 0 = Inr r
          \<and> gr_check_caps r = 0 \<and> \<not> gr_kick_flushing r"
    by (simp add: handle_cap_grant_def get_cap_for_mds_def inode_rd_stale_def inode_init_def
        mdsc_init_def cap_rd_def grant_old_def Let_def grant_invalidate_def
        grant_stale_seq_def grant_max_size_def grant_issue_def ceph_seq_cmp_def
        ceph_caps_used_def ceph_caps_revoking_other_def store_cap_def
        CEPH_CAP_PIN_def CEPH_CAP_FILE_RD_def CEPH_CAP_OP_GRANT_def CEPH_CAP_OP_REVOKE_def
        CEPH_CAP_OP_IMPORT_def CEPH_CAP_FILE_CACHE_def CEPH_CAP_FILE_LAZYIO_def
        CEPH_CAP_ANY_FILE_WR_def CEPH_CAP_FILE_WR_def CEPH_CAP_FILE_BUFFER_def
        CEPH_CAP_FILE_EXCL_def)
  with r(1) have nocall: "gr_check_caps r = 0" "\<not> gr_kick_flushing r"
    by auto
  show ?thesis
    apply (rule exI [of _ r])
    apply (rule exI [of _ cap'])
    apply (simp only: cap old iss r b1 b2 nocall)
    apply simp
    done
qed

subsection \<open>Messages for an inode that is not cached\<close>




end
